theory Spec2Isabelle
  imports
    Main
    "HOL-Library.Char_ord"
    "HOL-Library.List_Lexorder"
    "HOL-Library.Product_Lexorder"
    "HOL-Library.Log_Nat"
    "HOL-Library.AList"
begin

section \<open>Library functions the repository calls\<close>

text \<open>
  The commit engine of kv-vs calls a few functions that live outside the repository:
  \<^verbatim>\<open>crypto/sha256.Sum256\<close>, \<^verbatim>\<open>time.Time.Format(time.RFC3339Nano)\<close>,
  \<^verbatim>\<open>strings.TrimSpace\<close> and \<^verbatim>\<open>difflib.SplitLines\<close> / \<^verbatim>\<open>difflib.GetUnifiedDiffString\<close>
  of go-difflib. They are parameters of the model, collected in one record, so every
  theorem below holds for whatever these functions compute.

  Strings are byte strings (\<open>char list\<close>), as Go's are. A \<^verbatim>\<open>time.Time\<close> is the number
  of nanoseconds since the Unix epoch in UTC (an \<open>int\<close>), a \<^verbatim>\<open>time.Duration\<close> a number of
  nanoseconds; \<^verbatim>\<open>t.Before(u)\<close> is \<open>t < u\<close> and \<^verbatim>\<open>t.Add(d)\<close> is \<open>t + d\<close>.
\<close>

record lib =
  sha256 :: "string \<Rightarrow> string"
  formatRFC3339Nano :: "int \<Rightarrow> string"
  trimSpace :: "string \<Rightarrow> string"
  splitLines :: "string \<Rightarrow> string list"
  getUnifiedDiffString :: "string list \<Rightarrow> string list \<Rightarrow> string + string"

section \<open>Hashing and diff (hashutil.go, diff.go)\<close>

text \<open>\<^verbatim>\<open>hex.EncodeToString\<close>: two lower-case hexadecimal digits per byte.\<close>

definition hexdigit :: "nat \<Rightarrow> char" where
  "hexdigit n = ''0123456789abcdef'' ! n"

definition hexEncode :: "string \<Rightarrow> string" where
  "hexEncode bs =
     concat (map (\<lambda>b. [hexdigit (of_char b div 16), hexdigit (of_char b mod 16)]) bs)"

text \<open>\<^verbatim>\<open>strings.Join(elems, sep)\<close>.\<close>

fun join :: "string list \<Rightarrow> string \<Rightarrow> string" where
  "join [] sep = []"
| "join [x] sep = x"
| "join (x # y # ys) sep = x @ sep @ join (y # ys) sep"

definition computeContentHash :: "lib \<Rightarrow> string \<Rightarrow> string" where
  "computeContentHash L content = hexEncode (sha256 L content)"

text \<open>
  The argument order is the source's: \<^verbatim>\<open>computeCommitHash(repo, branch, content, parent, ts)\<close>,
  while the payload joins repo, branch, parent, content and the formatted timestamp.
\<close>

definition commitPayload :: "lib \<Rightarrow> string \<Rightarrow> string \<Rightarrow> string \<Rightarrow> string \<Rightarrow> int \<Rightarrow> string" where
  "commitPayload L repo branch content parent ts =
     join [repo, branch, parent, content, formatRFC3339Nano L ts] [CHR 0x0A]"

definition computeCommitHash :: "lib \<Rightarrow> string \<Rightarrow> string \<Rightarrow> string \<Rightarrow> string \<Rightarrow> int \<Rightarrow> string" where
  "computeCommitHash L repo branch content parent ts =
     hexEncode (sha256 L (commitPayload L repo branch content parent ts))"

text \<open>
  \<^verbatim>\<open>computeDiff\<close>: the empty string for equal inputs; otherwise the library's unified
  diff (file names "previous" and "current", three lines of context), trimmed, or the
  trimmed new content when the library reports an error (\<open>Inl\<close>).
\<close>

definition computeDiff :: "lib \<Rightarrow> string \<Rightarrow> string \<Rightarrow> string" where
  "computeDiff L previous current =
     (if previous = current then []
      else
        (case getUnifiedDiffString L (splitLines L previous) (splitLines L current) of
           Inl err \<Rightarrow> trimSpace L current
         | Inr res \<Rightarrow> trimSpace L res))"

section \<open>Data model (types.go, store.go)\<close>

record Commit =
  c_Repo :: string
  c_Branch :: string
  c_Hash :: string
  c_Parent :: string
  c_AuthorName :: string
  c_AuthorID :: string
  c_Message :: string
  c_ContentHash :: string
  c_Timestamp :: int
  c_Archived :: bool

record Branch =
  b_Repo :: string
  b_Name :: string
  b_Commit :: string
  b_UpdatedAt :: int

record Tag =
  t_Repo :: string
  t_Name :: string
  t_Commit :: string
  t_Note :: string
  t_CreatedAt :: int

record RetentionPolicy =
  p_Repo :: string
  p_HotCommitLimit :: int
  p_HotDuration :: int
  p_Locked :: bool

record retentionRecord =
  rr_HotCommitLimit :: int
  rr_HotDurationSeconds :: int
  rr_Locked :: bool

record BlobWriteRequest =
  w_Name :: string
  w_Branch :: string
  w_Content :: string
  w_AuthorName :: string
  w_AuthorID :: string

record BlobCommitResult =
  r_CommitHash :: string
  r_Branch :: string
  r_CreatedAt :: int
  r_Diff :: string

record ListCommitsOptions =
  l_Repo :: string
  l_Descending :: bool
  l_Limit :: int

record BranchRequest =
  br_Repo :: string
  br_Name :: string
  br_Commit :: string

record TagRequest =
  tr_Repo :: string
  tr_Name :: string
  tr_Commit :: string
  tr_Note :: string

datatype error =
    ValidationError string
  | NotFoundError string string
  | ConflictError string string

definition defaultBranch :: string where
  "defaultBranch = ''main''"

definition second :: int where
  "second = 1000000000"

definition WithRepo :: "RetentionPolicy \<Rightarrow> string \<Rightarrow> RetentionPolicy" where
  "WithRepo p repo = p\<lparr>p_Repo := repo\<rparr>"

definition toPolicy :: "retentionRecord \<Rightarrow> string \<Rightarrow> RetentionPolicy" where
  "toPolicy r repo =
     \<lparr>p_Repo = repo, p_HotCommitLimit = rr_HotCommitLimit r,
      p_HotDuration = rr_HotDurationSeconds r * second, p_Locked = rr_Locked r\<rparr>"

section \<open>The archive (MemoryArchive)\<close>

text \<open>
  \<^verbatim>\<open>MemoryArchive.data\<close> is a map from repository to a map from hash to payload.
  \<^verbatim>\<open>Store\<close> never fails; \<^verbatim>\<open>Fetch\<close> fails with NotFound for a missing repository or hash.
\<close>

type_synonym MemoryArchive = "string \<rightharpoonup> (string \<rightharpoonup> string)"

definition archive_Store :: "string \<Rightarrow> string \<Rightarrow> string \<Rightarrow> MemoryArchive \<Rightarrow> MemoryArchive" where
  "archive_Store repo hash payload m =
     m(repo \<mapsto> (case m repo of None \<Rightarrow> Map.empty | Some repoData \<Rightarrow> repoData)(hash \<mapsto> payload))"

definition archive_Fetch :: "string \<Rightarrow> string \<Rightarrow> MemoryArchive \<Rightarrow> error + string" where
  "archive_Fetch repo hash m =
     (case m repo of
        None \<Rightarrow> Inl (NotFoundError ''archive'' hash)
      | Some repoData \<Rightarrow>
          (case repoData hash of
             None \<Rightarrow> Inl (NotFoundError ''archive'' hash)
           | Some payload \<Rightarrow> Inr payload))"

section \<open>The KeyDB backend (keydb_store.go)\<close>

subsection \<open>Keys\<close>

definition commitKey :: "string \<Rightarrow> string \<Rightarrow> string" where
  "commitKey repo hash = ''commit:'' @ repo @ '':'' @ hash"

definition contentKey :: "string \<Rightarrow> string \<Rightarrow> string" where
  "contentKey repo hash = ''content:'' @ repo @ '':'' @ hash"

definition branchKey :: "string \<Rightarrow> string \<Rightarrow> string" where
  "branchKey repo branch = ''branch:'' @ repo @ '':'' @ branch"

definition repoCommitsKey :: "string \<Rightarrow> string" where
  "repoCommitsKey repo = ''repo:commits'' @ '':'' @ repo"

definition branchSetKey :: "string \<Rightarrow> string" where
  "branchSetKey repo = ''branchset:'' @ repo"

definition tagKey :: "string \<Rightarrow> string \<Rightarrow> string" where
  "tagKey repo name = ''tag:'' @ repo @ '':'' @ name"

definition tagSetKey :: "string \<Rightarrow> string" where
  "tagSetKey repo = ''tagset:'' @ repo"

definition authorKey :: "string \<Rightarrow> string \<Rightarrow> string" where
  "authorKey repo authorID = ''author:'' @ repo @ '':'' @ authorID"

definition policyKey :: "string \<Rightarrow> string" where
  "policyKey repo = ''policy:'' @ repo"

subsection \<open>The key space\<close>

text \<open>
  The store is the only writer of its Redis database. Every key it uses starts with one
  of nine prefixes, none of which is a prefix of another (lemma \<open>key_kinds_distinct\<close>
  below), and each prefix holds one kind of value. The key space is therefore one map
  per kind, each indexed by the full key string as the source formats it: two
  (repository, name) pairs whose formatted keys coincide share an entry here exactly as
  they do in Redis. JSON encoding and decoding of a record is the identity.

  A Redis set is the list of its members without duplicates (the source sorts the result
  of \<^verbatim>\<open>SMEMBERS\<close> before using it); a sorted set is its list of (score, member)
  pairs in ascending order of score, members with equal scores in lexicographic order.

  The connection is assumed to work, so the "any other error" branches of the source
  (an \<^verbatim>\<open>err\<close> that is neither nil nor \<^verbatim>\<open>redis.Nil\<close>) do not occur, and the store is
  the only client, so \<^verbatim>\<open>EXEC\<close> never reports \<^verbatim>\<open>redis.TxFailedErr\<close> and the retry loop
  of \<^verbatim>\<open>PutBlobAndCommit\<close> runs its body once.
\<close>

record kstore =
  k_commits :: "string \<rightharpoonup> Commit"
  k_contents :: "string \<rightharpoonup> string"
  k_branches :: "string \<rightharpoonup> Branch"
  k_branchset :: "string \<Rightarrow> string list"
  k_tags :: "string \<rightharpoonup> Tag"
  k_tagset :: "string \<Rightarrow> string list"
  k_index :: "string \<Rightarrow> (int \<times> string) list"
  k_authors :: "string \<rightharpoonup> string"
  k_policies :: "string \<rightharpoonup> retentionRecord"
  k_archive :: "MemoryArchive option"
  k_defaultPolicy :: RetentionPolicy

text \<open>
  \<^verbatim>\<open>float64(now.UnixNano())\<close>: the conversion of a 64-bit integer to a double rounds to
  the nearest representable value, ties to even; the result is again an integer.
\<close>

definition float64 :: "int \<Rightarrow> int" where
  "float64 n =
     (let a = \<bar>n\<bar> in
      if a < 2 ^ 53 then n
      else
        let e = nat (bitlen a - 53);
            q = a div 2 ^ e;
            r = a mod 2 ^ e;
            half = 2 ^ (e - 1);
            q' = (if half < r \<or> (r = half \<and> odd q) then q + 1 else q)
        in sgn n * q' * 2 ^ e)"

definition sadd :: "string \<Rightarrow> string list \<Rightarrow> string list" where
  "sadd member xs = (if member \<in> set xs then xs else xs @ [member])"

definition zadd :: "int \<Rightarrow> string \<Rightarrow> (int \<times> string) list \<Rightarrow> (int \<times> string) list" where
  "zadd score member zs = insort (score, member) (filter (\<lambda>e. snd e \<noteq> member) zs)"

text \<open>\<^verbatim>\<open>ZRANGE key 0 stop\<close> and \<^verbatim>\<open>ZREVRANGE key 0 stop\<close>, for \<open>stop = -1\<close> (everything) or \<open>stop \<ge> 0\<close>.\<close>

definition zrange :: "(int \<times> string) list \<Rightarrow> int \<Rightarrow> string list" where
  "zrange zs stop = map snd (if stop < 0 then zs else take (nat (stop + 1)) zs)"

definition zrevrange :: "(int \<times> string) list \<Rightarrow> int \<Rightarrow> string list" where
  "zrevrange zs stop = zrange (rev zs) stop"

subsection \<open>Reading commits and policies\<close>

definition keydb_GetCommit :: "string \<Rightarrow> string \<Rightarrow> kstore \<Rightarrow> error + (Commit \<times> string)" where
  "keydb_GetCommit repo hash s =
     (case k_commits s (commitKey repo hash) of
        None \<Rightarrow> Inl (NotFoundError ''commit'' hash)
      | Some commit \<Rightarrow>
          (case k_contents s (contentKey repo hash) of
             Some content \<Rightarrow> Inr (commit, content)
           | None \<Rightarrow>
               (case k_archive s of
                  None \<Rightarrow> Inl (NotFoundError ''content'' hash)
                | Some a \<Rightarrow>
                    (case archive_Fetch repo hash a of
                       Inl err \<Rightarrow> Inl err
                     | Inr payload \<Rightarrow> Inr (commit, payload)))))"

definition keydb_getCommitMetadata :: "string \<Rightarrow> string \<Rightarrow> kstore \<Rightarrow> Commit option" where
  "keydb_getCommitMetadata repo hash s = k_commits s (commitKey repo hash)"

definition keydb_GetPolicy :: "string \<Rightarrow> kstore \<Rightarrow> error + RetentionPolicy" where
  "keydb_GetPolicy repo s =
     (if repo = [] then Inl (ValidationError ''name query parameter required'')
      else
        (case k_policies s (policyKey repo) of
           None \<Rightarrow> Inr (WithRepo (k_defaultPolicy s) repo)
         | Some r \<Rightarrow> Inr (toPolicy r repo)))"

definition keydb_getPolicy :: "string \<Rightarrow> kstore \<Rightarrow> RetentionPolicy" where
  "keydb_getPolicy repo s =
     (case keydb_GetPolicy repo s of
        Inl err \<Rightarrow> WithRepo (k_defaultPolicy s) repo
      | Inr policy \<Rightarrow> policy)"

subsection \<open>Retention\<close>

text \<open>
  \<^verbatim>\<open>archiveCommit\<close> returns an error that \<^verbatim>\<open>enforceRetention\<close> discards; the model
  returns it next to the store.
\<close>

definition keydb_archiveCommit :: "string \<Rightarrow> string \<Rightarrow> kstore \<Rightarrow> error option \<times> kstore" where
  "keydb_archiveCommit repo hash s =
     (case k_archive s of
        None \<Rightarrow> (None, s)
      | Some a \<Rightarrow>
          (case keydb_GetCommit repo hash s of
             Inl err \<Rightarrow> (Some err, s)
           | Inr (commit, content) \<Rightarrow>
               if c_Archived commit then (None, s)
               else
                 (None,
                  s\<lparr>k_archive := Some (archive_Store repo hash content a),
                    k_commits := (k_commits s)(commitKey repo hash \<mapsto> commit\<lparr>c_Archived := True\<rparr>),
                    k_contents := (k_contents s)(contentKey repo hash := None)\<rparr>)))"

record entry =
  e_hash :: string
  e_timestamp :: int
  e_archived :: bool

definition keydb_entries :: "string \<Rightarrow> kstore \<Rightarrow> entry list" where
  "keydb_entries repo s =
     List.map_filter
       (\<lambda>hash. map_option
          (\<lambda>commit. \<lparr>e_hash = c_Hash commit, e_timestamp = c_Timestamp commit,
                      e_archived = c_Archived commit\<rparr>)
          (keydb_getCommitMetadata repo hash s))
       (zrange (k_index s (repoCommitsKey repo)) (- 1))"

text \<open>
  The hashes \<^verbatim>\<open>enforceRetention\<close> collects in its \<^verbatim>\<open>toArchive\<close> set: first by age
  (\<open>clk\<close> is the clock reading taken there), then the oldest entries beyond the count
  limit. The source iterates over a Go map, in no fixed order; the model takes the
  order of insertion.
\<close>

definition toArchive :: "int \<Rightarrow> RetentionPolicy \<Rightarrow> entry list \<Rightarrow> string list" where
  "toArchive clk policy entries =
     (let aged =
            (if 0 < p_HotDuration policy
             then map e_hash
                    (filter (\<lambda>e. \<not> e_archived e \<and> e_timestamp e < clk + (- p_HotDuration policy))
                       entries)
             else []);
          remaining = filter (\<lambda>e. \<not> e_archived e \<and> e_hash e \<notin> set aged) entries;
          excess = int (length remaining) - p_HotCommitLimit policy;
          counted =
            (if 0 < p_HotCommitLimit policy \<and> 0 < excess
             then map e_hash (take (nat excess) remaining)
             else [])
      in remdups (aged @ counted))"

definition keydb_enforceRetention :: "int \<Rightarrow> string \<Rightarrow> RetentionPolicy \<Rightarrow> kstore \<Rightarrow> kstore" where
  "keydb_enforceRetention clk repo policy s =
     (if k_archive s = None then s
      else if p_HotCommitLimit policy \<le> 0 \<and> p_HotDuration policy \<le> 0 then s
      else
        fold (\<lambda>hash st. snd (keydb_archiveCommit repo hash st))
          (toArchive clk policy (keydb_entries repo s)) s)"

subsection \<open>The write path\<close>

text \<open>
  The function passed to \<^verbatim>\<open>client.Watch\<close>: it reads the branch head, the parent's
  content and the author binding, and either returns an error before anything is queued
  or queues the six writes and executes them as one \<^verbatim>\<open>MULTI\<close>/\<^verbatim>\<open>EXEC\<close> block.
  \<open>now\<close> is the clock reading \<^verbatim>\<open>s.clock().UTC()\<close> taken inside.
\<close>

definition keydb_watch :: "lib \<Rightarrow> int \<Rightarrow> BlobWriteRequest \<Rightarrow> string \<Rightarrow> kstore \<Rightarrow> error + (BlobCommitResult \<times> kstore)" where
  "keydb_watch L now req branch s =
     (let parent = (case k_branches s (branchKey (w_Name req) branch) of
                      None \<Rightarrow> []
                    | Some branchMeta \<Rightarrow> b_Commit branchMeta);
          previous = (if parent \<noteq> []
                      then (case k_contents s (contentKey (w_Name req) parent) of
                              None \<Rightarrow> Inl (NotFoundError ''content'' parent)
                            | Some content \<Rightarrow> Inr content)
                      else Inr [])
      in case previous of
           Inl err \<Rightarrow> Inl err
         | Inr previousContent \<Rightarrow>
             if (case k_authors s (authorKey (w_Name req) (w_AuthorID req)) of
                   None \<Rightarrow> False
                 | Some existingAuthorName \<Rightarrow> existingAuthorName \<noteq> w_AuthorName req)
             then Inl (ConflictError ''author'' (w_AuthorID req))
             else
               let diff = computeDiff L previousContent (w_Content req);
                   contentHash = computeContentHash L (w_Content req);
                   commitHash = computeCommitHash L (w_Name req) branch (w_Content req) parent now
               in
                 if k_commits s (commitKey (w_Name req) commitHash) \<noteq> None
                 then Inl (ConflictError ''commit'' commitHash)
                 else
                   let commit =
                         \<lparr>c_Repo = w_Name req, c_Branch = branch, c_Hash = commitHash,
                          c_Parent = parent, c_AuthorName = w_AuthorName req,
                          c_AuthorID = w_AuthorID req, c_Message = ''auto commit'',
                          c_ContentHash = contentHash, c_Timestamp = now, c_Archived = False\<rparr>;
                       s' =
                         s\<lparr>k_commits := (k_commits s)(commitKey (w_Name req) commitHash \<mapsto> commit),
                           k_contents := (k_contents s)(contentKey (w_Name req) commitHash \<mapsto> w_Content req),
                           k_branches := (k_branches s)(branchKey (w_Name req) branch \<mapsto>
                              \<lparr>b_Repo = w_Name req, b_Name = branch, b_Commit = commitHash,
                               b_UpdatedAt = now\<rparr>),
                           k_branchset := (k_branchset s)(branchSetKey (w_Name req) :=
                              sadd branch (k_branchset s (branchSetKey (w_Name req)))),
                           k_index := (k_index s)(repoCommitsKey (w_Name req) :=
                              zadd (float64 now) commitHash (k_index s (repoCommitsKey (w_Name req)))),
                           k_authors := (k_authors s)(authorKey (w_Name req) (w_AuthorID req) \<mapsto>
                              w_AuthorName req)\<rparr>
                   in Inr (\<lparr>r_CommitHash = commitHash, r_Branch = branch, r_CreatedAt = now,
                            r_Diff = diff\<rparr>, s'))"

text \<open>
  \<^verbatim>\<open>PutBlobAndCommit\<close>. \<open>now\<close> is the clock reading inside the transaction, \<open>clk\<close> the
  one \<^verbatim>\<open>enforceRetention\<close> takes afterwards. The policy is read before the write.
\<close>

definition keydb_PutBlobAndCommit :: "lib \<Rightarrow> int \<Rightarrow> int \<Rightarrow> BlobWriteRequest \<Rightarrow> kstore \<Rightarrow> (error + BlobCommitResult) \<times> kstore" where
  "keydb_PutBlobAndCommit L now clk req s =
     (if w_Name req = [] then (Inl (ValidationError ''name is required''), s)
      else if w_Content req = [] then (Inl (ValidationError ''content is required''), s)
      else if w_AuthorName req = [] \<or> w_AuthorID req = []
      then (Inl (ValidationError ''author name and id are required''), s)
      else
        let branch = (if w_Branch req = [] then defaultBranch else w_Branch req);
            policy = keydb_getPolicy (w_Name req) s
        in
          (case keydb_watch L now req branch s of
             Inl err \<Rightarrow> (Inl err, s)
           | Inr (result, s') \<Rightarrow>
               (Inr result, keydb_enforceRetention clk (w_Name req) policy s')))"

subsection \<open>Listing commits\<close>

definition keydb_ListCommits :: "ListCommitsOptions \<Rightarrow> kstore \<Rightarrow> Commit list" where
  "keydb_ListCommits opts s =
     (if l_Repo opts = [] then []
      else
        let key = repoCommitsKey (l_Repo opts);
            stop = (if 0 < l_Limit opts then l_Limit opts - 1 else - 1);
            hashes = (if l_Descending opts then zrevrange (k_index s key) stop
                      else zrange (k_index s key) stop)
        in List.map_filter (\<lambda>hash. k_commits s (commitKey (l_Repo opts) hash)) hashes)"

subsection \<open>Branches and tags\<close>

definition keydb_UpsertBranch :: "int \<Rightarrow> BranchRequest \<Rightarrow> kstore \<Rightarrow> (error + Branch) \<times> kstore" where
  "keydb_UpsertBranch now req s =
     (if br_Repo req = [] \<or> br_Name req = [] \<or> br_Commit req = []
      then (Inl (ValidationError ''repo, name, and commit are required''), s)
      else
        (case keydb_GetCommit (br_Repo req) (br_Commit req) s of
           Inl err \<Rightarrow> (Inl err, s)
         | Inr (commit, content) \<Rightarrow>
             if c_Repo commit \<noteq> br_Repo req
             then (Inl (ValidationError ''commit does not belong to repository''), s)
             else
               let branch = \<lparr>b_Repo = br_Repo req, b_Name = br_Name req,
                             b_Commit = br_Commit req, b_UpdatedAt = now\<rparr>
               in (Inr branch,
                   s\<lparr>k_branches := (k_branches s)(branchKey (br_Repo req) (br_Name req) \<mapsto> branch),
                     k_branchset := (k_branchset s)(branchSetKey (br_Repo req) :=
                        sadd (br_Name req) (k_branchset s (branchSetKey (br_Repo req))))\<rparr>)))"

definition keydb_GetBranch :: "string \<Rightarrow> string \<Rightarrow> kstore \<Rightarrow> error + Branch" where
  "keydb_GetBranch repo name s =
     (if repo = [] \<or> name = [] then Inl (ValidationError ''repo and name are required'')
      else
        (case k_branches s (branchKey repo name) of
           None \<Rightarrow> Inl (NotFoundError ''branch'' name)
         | Some branch \<Rightarrow> Inr branch))"

definition keydb_ListBranches :: "string \<Rightarrow> kstore \<Rightarrow> Branch list" where
  "keydb_ListBranches repo s =
     (if repo = [] then []
      else
        List.map_filter
          (\<lambda>name. case keydb_GetBranch repo name s of Inl err \<Rightarrow> None | Inr branch \<Rightarrow> Some branch)
          (sort (k_branchset s (branchSetKey repo))))"

definition keydb_CreateTag :: "int \<Rightarrow> TagRequest \<Rightarrow> kstore \<Rightarrow> (error + Tag) \<times> kstore" where
  "keydb_CreateTag now req s =
     (if tr_Repo req = [] \<or> tr_Name req = [] \<or> tr_Commit req = []
      then (Inl (ValidationError ''repo, name, and commit are required''), s)
      else
        (case keydb_GetCommit (tr_Repo req) (tr_Commit req) s of
           Inl err \<Rightarrow> (Inl err, s)
         | Inr (commit, content) \<Rightarrow>
             if c_Repo commit \<noteq> tr_Repo req
             then (Inl (ValidationError ''commit does not belong to repository''), s)
             else if k_tags s (tagKey (tr_Repo req) (tr_Name req)) \<noteq> None
             then (Inl (ConflictError ''tag'' (tr_Name req)), s)
             else
               let tag = \<lparr>t_Repo = tr_Repo req, t_Name = tr_Name req, t_Commit = tr_Commit req,
                          t_Note = tr_Note req, t_CreatedAt = now\<rparr>
               in (Inr tag,
                   s\<lparr>k_tags := (k_tags s)(tagKey (tr_Repo req) (tr_Name req) \<mapsto> tag),
                     k_tagset := (k_tagset s)(tagSetKey (tr_Repo req) :=
                        sadd (tr_Name req) (k_tagset s (tagSetKey (tr_Repo req))))\<rparr>)))"

definition keydb_GetTag :: "string \<Rightarrow> string \<Rightarrow> kstore \<Rightarrow> error + Tag" where
  "keydb_GetTag repo name s =
     (if repo = [] \<or> name = [] then Inl (ValidationError ''repo and name are required'')
      else
        (case k_tags s (tagKey repo name) of
           None \<Rightarrow> Inl (NotFoundError ''tag'' name)
         | Some tag \<Rightarrow> Inr tag))"

definition keydb_ListTags :: "string \<Rightarrow> kstore \<Rightarrow> Tag list" where
  "keydb_ListTags repo s =
     (if repo = [] then []
      else
        List.map_filter
          (\<lambda>name. case keydb_GetTag repo name s of Inl err \<Rightarrow> None | Inr tag \<Rightarrow> Some tag)
          (sort (k_tagset s (tagSetKey repo))))"

subsection \<open>Policies\<close>

text \<open>
  \<^verbatim>\<open>SetPolicy\<close> stores the duration in whole seconds
  (\<^verbatim>\<open>int64(policy.HotDuration / time.Second)\<close>; the duration is not negative at that point,
  so Go's truncating division is \<open>div\<close>), compares a locked record with the new limit and
  the new number of seconds, and returns the policy it was given, marked locked. \<open>clk\<close> is
  the clock reading of \<^verbatim>\<open>enforceRetention\<close>.
\<close>

definition keydb_SetPolicy :: "int \<Rightarrow> RetentionPolicy \<Rightarrow> kstore \<Rightarrow> (error + RetentionPolicy) \<times> kstore" where
  "keydb_SetPolicy clk policy s =
     (if p_Repo policy = [] then (Inl (ValidationError ''repository name is required''), s)
      else if p_HotCommitLimit policy < 0
      then (Inl (ValidationError ''hotCommitLimit must be >= 0''), s)
      else if p_HotDuration policy < 0
      then (Inl (ValidationError ''hotDuration must be >= 0''), s)
      else
        let key = policyKey (p_Repo policy);
            seconds = p_HotDuration policy div second
        in
          if (case k_policies s key of
                None \<Rightarrow> False
              | Some r \<Rightarrow> rr_Locked r \<and>
                  (rr_HotCommitLimit r \<noteq> p_HotCommitLimit policy \<or> rr_HotDurationSeconds r \<noteq> seconds))
          then (Inl (ConflictError ''policy'' (p_Repo policy)), s)
          else
            let r = \<lparr>rr_HotCommitLimit = p_HotCommitLimit policy, rr_HotDurationSeconds = seconds,
                     rr_Locked = True\<rparr>;
                s' = s\<lparr>k_policies := (k_policies s)(key \<mapsto> r)\<rparr>;
                policy' = policy\<lparr>p_Locked := True\<rparr>
            in (Inr policy', keydb_enforceRetention clk (p_Repo policy) policy' s'))"

subsection \<open>Construction and the operations as a state machine\<close>

record RetentionDefaults =
  d_HotCommitLimit :: int
  d_HotDuration :: int

record Options =
  o_Archive :: "MemoryArchive option"
  o_Retention :: RetentionDefaults

text \<open>\<^verbatim>\<open>NewKeyDBStore\<close> on a database that holds nothing yet.\<close>

definition NewKeyDBStore :: "Options \<Rightarrow> kstore" where
  "NewKeyDBStore opts =
     \<lparr>k_commits = Map.empty, k_contents = Map.empty, k_branches = Map.empty,
      k_branchset = (\<lambda>key. []), k_tags = Map.empty, k_tagset = (\<lambda>key. []),
      k_index = (\<lambda>key. []), k_authors = Map.empty, k_policies = Map.empty,
      k_archive = o_Archive opts,
      k_defaultPolicy =
        \<lparr>p_Repo = [], p_HotCommitLimit = d_HotCommitLimit (o_Retention opts),
         p_HotDuration = d_HotDuration (o_Retention opts), p_Locked = False\<rparr>\<rparr>"

text \<open>
  One call of the \<^verbatim>\<open>Store\<close> interface, with the clock readings the call takes, and
  what it returns.
\<close>

datatype op =
    PutBlobAndCommit int int BlobWriteRequest
  | ListCommits ListCommitsOptions
  | GetCommit string string
  | UpsertBranch int BranchRequest
  | ListBranches string
  | GetBranch string string
  | CreateTag int TagRequest
  | ListTags string
  | GetTag string string
  | SetPolicy int RetentionPolicy
  | GetPolicy string

datatype response =
    CommitResult "error + BlobCommitResult"
  | Commits "Commit list"
  | CommitContent "error + (Commit \<times> string)"
  | BranchResult "error + Branch"
  | Branches "Branch list"
  | TagResult "error + Tag"
  | Tags "Tag list"
  | PolicyResult "error + RetentionPolicy"

fun keydb_step :: "lib \<Rightarrow> op \<Rightarrow> kstore \<Rightarrow> response \<times> kstore" where
  "keydb_step L (PutBlobAndCommit now clk req) s =
     (case keydb_PutBlobAndCommit L now clk req s of (r, s') \<Rightarrow> (CommitResult r, s'))"
| "keydb_step L (ListCommits opts) s = (Commits (keydb_ListCommits opts s), s)"
| "keydb_step L (GetCommit repo hash) s = (CommitContent (keydb_GetCommit repo hash s), s)"
| "keydb_step L (UpsertBranch now req) s =
     (case keydb_UpsertBranch now req s of (r, s') \<Rightarrow> (BranchResult r, s'))"
| "keydb_step L (ListBranches repo) s = (Branches (keydb_ListBranches repo s), s)"
| "keydb_step L (GetBranch repo name) s = (BranchResult (keydb_GetBranch repo name s), s)"
| "keydb_step L (CreateTag now req) s =
     (case keydb_CreateTag now req s of (r, s') \<Rightarrow> (TagResult r, s'))"
| "keydb_step L (ListTags repo) s = (Tags (keydb_ListTags repo s), s)"
| "keydb_step L (GetTag repo name) s = (TagResult (keydb_GetTag repo name s), s)"
| "keydb_step L (SetPolicy clk policy) s =
     (case keydb_SetPolicy clk policy s of (r, s') \<Rightarrow> (PolicyResult r, s'))"
| "keydb_step L (GetPolicy repo) s = (PolicyResult (keydb_GetPolicy repo s), s)"

fun keydb_run :: "lib \<Rightarrow> op list \<Rightarrow> kstore \<Rightarrow> response list \<times> kstore" where
  "keydb_run L [] s = ([], s)"
| "keydb_run L (x # xs) s =
     (case keydb_step L x s of
        (r, s') \<Rightarrow> (case keydb_run L xs s' of (rs, s'') \<Rightarrow> (r # rs, s'')))"

definition keydb_reachable :: "lib \<Rightarrow> kstore \<Rightarrow> bool" where
  "keydb_reachable L s = (\<exists>opts ops. s = snd (keydb_run L ops (NewKeyDBStore opts)))"

section \<open>The in-memory backend (store.go)\<close>

text \<open>
  \<^verbatim>\<open>memoryStore\<close> keeps Go maps: commits and contents by hash alone, the history of a
  repository as a slice of hashes in order of insertion, and per repository a map of
  branches, of tags and of authors. The inner maps of branches and tags are association
  lists with distinct keys here, since the store enumerates their keys; every other map is
  a partial function. The mutex makes each operation atomic, so an operation is a
  function from store to store. \<open>clk\<close> is the clock reading retention takes.
\<close>

record mstore =
  m_commits :: "string \<rightharpoonup> Commit"
  m_contents :: "string \<rightharpoonup> string"
  m_repoCommits :: "string \<rightharpoonup> string list"
  m_branches :: "string \<rightharpoonup> (string \<times> Branch) list"
  m_tags :: "string \<rightharpoonup> (string \<times> Tag) list"
  m_authors :: "string \<rightharpoonup> (string \<rightharpoonup> string)"
  m_policies :: "string \<rightharpoonup> RetentionPolicy"
  m_defaultPolicy :: RetentionPolicy
  m_archive :: "MemoryArchive option"

definition NewMemoryStore :: "Options \<Rightarrow> mstore" where
  "NewMemoryStore opts =
     \<lparr>m_commits = Map.empty, m_contents = Map.empty, m_repoCommits = Map.empty,
      m_branches = Map.empty, m_tags = Map.empty, m_authors = Map.empty,
      m_policies = Map.empty,
      m_defaultPolicy =
        \<lparr>p_Repo = [], p_HotCommitLimit = d_HotCommitLimit (o_Retention opts),
         p_HotDuration = d_HotDuration (o_Retention opts), p_Locked = False\<rparr>,
      m_archive = o_Archive opts\<rparr>"

text \<open>
  The zero value of \<^verbatim>\<open>types.Commit\<close>, which Go's map lookup yields for a missing hash;
  its timestamp is the zero \<^verbatim>\<open>time.Time\<close>, the first instant of year 1.
\<close>

definition zeroCommit :: Commit where
  "zeroCommit =
     \<lparr>c_Repo = [], c_Branch = [], c_Hash = [], c_Parent = [], c_AuthorName = [],
      c_AuthorID = [], c_Message = [], c_ContentHash = [],
      c_Timestamp = - 62135596800 * second, c_Archived = False\<rparr>"

definition memory_getPolicyLocked :: "string \<Rightarrow> mstore \<Rightarrow> RetentionPolicy" where
  "memory_getPolicyLocked repo m =
     (case m_policies m repo of
        Some policy \<Rightarrow> policy
      | None \<Rightarrow> WithRepo (m_defaultPolicy m) repo)"

definition memory_flushCommitLocked :: "string \<Rightarrow> string \<Rightarrow> mstore \<Rightarrow> mstore" where
  "memory_flushCommitLocked repo hash m =
     (case m_archive m of
        None \<Rightarrow> m
      | Some a \<Rightarrow>
          (case m_commits m hash of
             None \<Rightarrow> m
           | Some commit \<Rightarrow>
               if c_Archived commit then m
               else
                 (case m_contents m hash of
                    None \<Rightarrow> m\<lparr>m_commits := (m_commits m)(hash \<mapsto> commit\<lparr>c_Archived := True\<rparr>)\<rparr>
                  | Some content \<Rightarrow>
                      m\<lparr>m_archive := Some (archive_Store repo hash content a),
                        m_contents := (m_contents m)(hash := None),
                        m_commits := (m_commits m)(hash \<mapsto> commit\<lparr>c_Archived := True\<rparr>)\<rparr>)))"

definition memory_toArchive :: "int \<Rightarrow> RetentionPolicy \<Rightarrow> Commit list \<Rightarrow> string list" where
  "memory_toArchive clk policy active =
     (let aged =
            (if 0 < p_HotDuration policy
             then map c_Hash
                    (filter (\<lambda>commit. c_Timestamp commit < clk + (- p_HotDuration policy)) active)
             else []);
          remaining = filter (\<lambda>commit. c_Hash commit \<notin> set aged) active;
          excess = int (length remaining) - p_HotCommitLimit policy;
          counted =
            (if 0 < p_HotCommitLimit policy \<and> 0 < excess
             then map c_Hash (take (nat excess) remaining)
             else [])
      in remdups (aged @ counted))"

definition memory_applyRetentionLocked :: "int \<Rightarrow> string \<Rightarrow> mstore \<Rightarrow> mstore" where
  "memory_applyRetentionLocked clk repo m =
     (if m_archive m = None then m
      else
        let policy = memory_getPolicyLocked repo m
        in
          if p_HotCommitLimit policy \<le> 0 \<and> p_HotDuration policy \<le> 0 then m
          else
            let hashes = (case m_repoCommits m repo of None \<Rightarrow> [] | Some hs \<Rightarrow> hs)
            in
              if hashes = [] then m
              else
                let active =
                      filter (\<lambda>commit. \<not> c_Archived commit)
                        (map (\<lambda>hash. case m_commits m hash of
                                         None \<Rightarrow> zeroCommit
                                       | Some commit \<Rightarrow> commit) hashes)
                in fold (memory_flushCommitLocked repo) (memory_toArchive clk policy active) m)"

text \<open>
  \<^verbatim>\<open>PutBlobAndCommit\<close>. The source creates the repository's branch and author maps if
  they are missing, checks the author binding and records it, and only then looks for the
  parent's content and for an existing commit with the new hash.
\<close>

definition memory_PutBlobAndCommit :: "lib \<Rightarrow> int \<Rightarrow> int \<Rightarrow> BlobWriteRequest \<Rightarrow> mstore \<Rightarrow> (error + BlobCommitResult) \<times> mstore" where
  "memory_PutBlobAndCommit L now clk req m =
     (if w_Name req = [] then (Inl (ValidationError ''name is required''), m)
      else if w_Content req = [] then (Inl (ValidationError ''content is required''), m)
      else if w_AuthorName req = [] \<or> w_AuthorID req = []
      then (Inl (ValidationError ''author name and id are required''), m)
      else
        let branch = (if w_Branch req = [] then defaultBranch else w_Branch req);
            repoBranches = (case m_branches m (w_Name req) of None \<Rightarrow> [] | Some rb \<Rightarrow> rb);
            repoAuthors = (case m_authors m (w_Name req) of None \<Rightarrow> Map.empty | Some ra \<Rightarrow> ra);
            m2 = m\<lparr>m_branches := (m_branches m)(w_Name req \<mapsto> repoBranches),
                   m_authors := (m_authors m)(w_Name req \<mapsto> repoAuthors)\<rparr>
        in
          if (case repoAuthors (w_AuthorID req) of
                None \<Rightarrow> False
              | Some existingName \<Rightarrow> existingName \<noteq> w_AuthorName req)
          then (Inl (ConflictError ''author'' (w_AuthorID req)), m2)
          else
            let m3 = m2\<lparr>m_authors := (m_authors m2)(w_Name req \<mapsto>
                           repoAuthors(w_AuthorID req \<mapsto> w_AuthorName req))\<rparr>;
                parent = (case map_of repoBranches branch of
                            None \<Rightarrow> []
                          | Some existing \<Rightarrow> b_Commit existing);
                previous = (if parent \<noteq> []
                            then (case m_contents m3 parent of
                                    Some content \<Rightarrow> Inr content
                                  | None \<Rightarrow> Inl (NotFoundError ''commit'' parent))
                            else Inr [])
            in
              (case previous of
                 Inl err \<Rightarrow> (Inl err, m3)
               | Inr previousContent \<Rightarrow>
                   let diff = computeDiff L previousContent (w_Content req);
                       contentHash = computeContentHash L (w_Content req);
                       commitHash = computeCommitHash L (w_Name req) branch (w_Content req) parent now
                   in
                     if m_commits m3 commitHash \<noteq> None
                     then (Inl (ConflictError ''commit'' commitHash), m3)
                     else
                       let commit =
                             \<lparr>c_Repo = w_Name req, c_Branch = branch, c_Hash = commitHash,
                              c_Parent = parent, c_AuthorName = w_AuthorName req,
                              c_AuthorID = w_AuthorID req, c_Message = ''auto commit'',
                              c_ContentHash = contentHash, c_Timestamp = now,
                              c_Archived = False\<rparr>;
                           m4 =
                             m3\<lparr>m_commits := (m_commits m3)(commitHash \<mapsto> commit),
                                m_contents := (m_contents m3)(commitHash \<mapsto> w_Content req),
                                m_branches := (m_branches m3)(w_Name req \<mapsto>
                                   AList.update branch
                                     \<lparr>b_Repo = w_Name req, b_Name = branch,
                                      b_Commit = commitHash, b_UpdatedAt = now\<rparr>
                                     repoBranches),
                                m_repoCommits := (m_repoCommits m3)(w_Name req \<mapsto>
                                   (case m_repoCommits m3 (w_Name req) of
                                      None \<Rightarrow> []
                                    | Some hs \<Rightarrow> hs) @ [commitHash])\<rparr>
                       in (Inr \<lparr>r_CommitHash = commitHash, r_Branch = branch,
                                r_CreatedAt = now, r_Diff = diff\<rparr>,
                           memory_applyRetentionLocked clk (w_Name req) m4)))"

text \<open>
  \<^verbatim>\<open>ListCommits\<close>: the loop appends the commit of each hash that has one and stops as
  soon as a positive limit is reached.
\<close>

fun memory_collect :: "(string \<rightharpoonup> Commit) \<Rightarrow> int \<Rightarrow> string list \<Rightarrow> Commit list \<Rightarrow> Commit list" where
  "memory_collect commits limit [] result = result"
| "memory_collect commits limit (hash # rest) result =
     (let result' = (case commits hash of None \<Rightarrow> result | Some commit \<Rightarrow> result @ [commit])
      in if 0 < limit \<and> limit \<le> int (length result') then result'
         else memory_collect commits limit rest result')"

definition memory_ListCommits :: "ListCommitsOptions \<Rightarrow> mstore \<Rightarrow> Commit list" where
  "memory_ListCommits opts m =
     (case m_repoCommits m (l_Repo opts) of
        None \<Rightarrow> []
      | Some commitHashes \<Rightarrow>
          memory_collect (m_commits m) (l_Limit opts)
            (if l_Descending opts then rev commitHashes else commitHashes) [])"

definition memory_GetCommit :: "string \<Rightarrow> string \<Rightarrow> mstore \<Rightarrow> error + (Commit \<times> string)" where
  "memory_GetCommit repo hash m =
     (case m_commits m hash of
        None \<Rightarrow> Inl (NotFoundError ''commit'' hash)
      | Some commit \<Rightarrow>
          if c_Repo commit \<noteq> repo then Inl (NotFoundError ''commit'' hash)
          else
            (case m_contents m hash of
               Some content \<Rightarrow> Inr (commit, content)
             | None \<Rightarrow>
                 (case m_archive m of
                    None \<Rightarrow> Inl (NotFoundError ''content'' hash)
                  | Some a \<Rightarrow>
                      (case archive_Fetch repo hash a of
                         Inl err \<Rightarrow> Inl err
                       | Inr payload \<Rightarrow> Inr (commit, payload)))))"

definition memory_SetPolicy :: "int \<Rightarrow> RetentionPolicy \<Rightarrow> mstore \<Rightarrow> (error + RetentionPolicy) \<times> mstore" where
  "memory_SetPolicy clk policy m =
     (if p_Repo policy = [] then (Inl (ValidationError ''repository name is required''), m)
      else if p_HotCommitLimit policy < 0
      then (Inl (ValidationError ''hotCommitLimit must be >= 0''), m)
      else if p_HotDuration policy < 0
      then (Inl (ValidationError ''hotDuration must be >= 0''), m)
      else if (case m_policies m (p_Repo policy) of
                 None \<Rightarrow> False
               | Some existing \<Rightarrow> p_Locked existing \<and>
                   (p_HotCommitLimit existing \<noteq> p_HotCommitLimit policy \<or>
                    p_HotDuration existing \<noteq> p_HotDuration policy))
      then (Inl (ConflictError ''policy'' (p_Repo policy)), m)
      else
        let policy' = policy\<lparr>p_Locked := True\<rparr>;
            m' = m\<lparr>m_policies := (m_policies m)(p_Repo policy \<mapsto> policy')\<rparr>
        in (Inr policy', memory_applyRetentionLocked clk (p_Repo policy) m'))"

definition memory_GetPolicy :: "string \<Rightarrow> mstore \<Rightarrow> error + RetentionPolicy" where
  "memory_GetPolicy repo m =
     (if repo = [] then Inl (ValidationError ''name query parameter required'')
      else Inr (memory_getPolicyLocked repo m))"

definition memory_UpsertBranch :: "int \<Rightarrow> BranchRequest \<Rightarrow> mstore \<Rightarrow> (error + Branch) \<times> mstore" where
  "memory_UpsertBranch now req m =
     (if br_Repo req = [] \<or> br_Name req = [] \<or> br_Commit req = []
      then (Inl (ValidationError ''repo, name, and commit are required''), m)
      else if (case m_commits m (br_Commit req) of
                 None \<Rightarrow> True
               | Some commit \<Rightarrow> c_Repo commit \<noteq> br_Repo req)
      then (Inl (NotFoundError ''commit'' (br_Commit req)), m)
      else
        let repoBranches = (case m_branches m (br_Repo req) of None \<Rightarrow> [] | Some rb \<Rightarrow> rb);
            branch = \<lparr>b_Repo = br_Repo req, b_Name = br_Name req, b_Commit = br_Commit req,
                      b_UpdatedAt = now\<rparr>
        in (Inr branch,
            m\<lparr>m_branches := (m_branches m)(br_Repo req \<mapsto>
                 AList.update (br_Name req) branch repoBranches)\<rparr>))"

definition memory_ListBranches :: "string \<Rightarrow> mstore \<Rightarrow> Branch list" where
  "memory_ListBranches repo m =
     (case m_branches m repo of
        None \<Rightarrow> []
      | Some repoBranches \<Rightarrow>
          List.map_filter (map_of repoBranches) (sort (map fst repoBranches)))"

definition memory_GetBranch :: "string \<Rightarrow> string \<Rightarrow> mstore \<Rightarrow> error + Branch" where
  "memory_GetBranch repo name m =
     (case m_branches m repo of
        None \<Rightarrow> Inl (NotFoundError ''branch'' name)
      | Some repoBranches \<Rightarrow>
          (case map_of repoBranches name of
             None \<Rightarrow> Inl (NotFoundError ''branch'' name)
           | Some branch \<Rightarrow> Inr branch))"

definition memory_CreateTag :: "int \<Rightarrow> TagRequest \<Rightarrow> mstore \<Rightarrow> (error + Tag) \<times> mstore" where
  "memory_CreateTag now req m =
     (if tr_Repo req = [] \<or> tr_Name req = [] \<or> tr_Commit req = []
      then (Inl (ValidationError ''repo, name, and commit are required''), m)
      else if (case m_commits m (tr_Commit req) of
                 None \<Rightarrow> True
               | Some commit \<Rightarrow> c_Repo commit \<noteq> tr_Repo req)
      then (Inl (NotFoundError ''commit'' (tr_Commit req)), m)
      else
        let repoTags = (case m_tags m (tr_Repo req) of None \<Rightarrow> [] | Some rt \<Rightarrow> rt);
            m1 = m\<lparr>m_tags := (m_tags m)(tr_Repo req \<mapsto> repoTags)\<rparr>
        in
          if map_of repoTags (tr_Name req) \<noteq> None
          then (Inl (ConflictError ''tag'' (tr_Name req)), m1)
          else
            let tag = \<lparr>t_Repo = tr_Repo req, t_Name = tr_Name req, t_Commit = tr_Commit req,
                       t_Note = tr_Note req, t_CreatedAt = now\<rparr>
            in (Inr tag,
                m1\<lparr>m_tags := (m_tags m1)(tr_Repo req \<mapsto>
                      AList.update (tr_Name req) tag repoTags)\<rparr>))"

definition memory_ListTags :: "string \<Rightarrow> mstore \<Rightarrow> Tag list" where
  "memory_ListTags repo m =
     (case m_tags m repo of
        None \<Rightarrow> []
      | Some repoTags \<Rightarrow> List.map_filter (map_of repoTags) (sort (map fst repoTags)))"

definition memory_GetTag :: "string \<Rightarrow> string \<Rightarrow> mstore \<Rightarrow> error + Tag" where
  "memory_GetTag repo name m =
     (case m_tags m repo of
        None \<Rightarrow> Inl (NotFoundError ''tag'' name)
      | Some repoTags \<Rightarrow>
          (case map_of repoTags name of
             None \<Rightarrow> Inl (NotFoundError ''tag'' name)
           | Some tag \<Rightarrow> Inr tag))"

fun memory_step :: "lib \<Rightarrow> op \<Rightarrow> mstore \<Rightarrow> response \<times> mstore" where
  "memory_step L (PutBlobAndCommit now clk req) m =
     (case memory_PutBlobAndCommit L now clk req m of (r, m') \<Rightarrow> (CommitResult r, m'))"
| "memory_step L (ListCommits opts) m = (Commits (memory_ListCommits opts m), m)"
| "memory_step L (GetCommit repo hash) m = (CommitContent (memory_GetCommit repo hash m), m)"
| "memory_step L (UpsertBranch now req) m =
     (case memory_UpsertBranch now req m of (r, m') \<Rightarrow> (BranchResult r, m'))"
| "memory_step L (ListBranches repo) m = (Branches (memory_ListBranches repo m), m)"
| "memory_step L (GetBranch repo name) m = (BranchResult (memory_GetBranch repo name m), m)"
| "memory_step L (CreateTag now req) m =
     (case memory_CreateTag now req m of (r, m') \<Rightarrow> (TagResult r, m'))"
| "memory_step L (ListTags repo) m = (Tags (memory_ListTags repo m), m)"
| "memory_step L (GetTag repo name) m = (TagResult (memory_GetTag repo name m), m)"
| "memory_step L (SetPolicy clk policy) m =
     (case memory_SetPolicy clk policy m of (r, m') \<Rightarrow> (PolicyResult r, m'))"
| "memory_step L (GetPolicy repo) m = (PolicyResult (memory_GetPolicy repo m), m)"

fun memory_run :: "lib \<Rightarrow> op list \<Rightarrow> mstore \<Rightarrow> response list \<times> mstore" where
  "memory_run L [] m = ([], m)"
| "memory_run L (x # xs) m =
     (case memory_step L x m of
        (r, m') \<Rightarrow> (case memory_run L xs m' of (rs, m'') \<Rightarrow> (r # rs, m'')))"

text \<open>The class of an error, which is what a caller of the store can tell apart.\<close>

datatype error_class = Validation | NotFound | Conflict

fun class_of :: "error \<Rightarrow> error_class" where
  "class_of (ValidationError message) = Validation"
| "class_of (NotFoundError resource key) = NotFound"
| "class_of (ConflictError resource key) = Conflict"

section \<open>A small instance of the library\<close>

text \<open>
  To run the model on concrete inputs the library record needs concrete functions. This
  instance is deliberately tiny: the digest is one byte (the length of its input), a time
  is printed in unary, trimming and line splitting do nothing, and the diff is the two
  inputs under the two file headers. It is used only in closed example theorems; every
  general theorem is proved for an arbitrary library.
\<close>

definition example_lib :: lib where
  "example_lib =
     \<lparr>sha256 = (\<lambda>s. [char_of (length s)]),
      formatRFC3339Nano = (\<lambda>t. replicate (nat t) (CHR ''n'')),
      trimSpace = (\<lambda>s. s),
      splitLines = (\<lambda>s. [s]),
      getUnifiedDiffString =
        (\<lambda>a b. Inr (''--- previous'' @ concat a @ ''+++ current'' @ concat b))\<rparr>"

definition example_opts :: Options where
  "example_opts =
     \<lparr>o_Archive = Some Map.empty,
      o_Retention = \<lparr>d_HotCommitLimit = 0, d_HotDuration = 0\<rparr>\<rparr>"

definition example_write :: BlobWriteRequest where
  "example_write =
     \<lparr>w_Name = ''analytics'', w_Branch = [], w_Content = ''one'',
      w_AuthorName = ''Alice'', w_AuthorID = ''a1''\<rparr>"

definition example_commit :: Commit where
  "example_commit =
     \<lparr>c_Repo = ''analytics'', c_Branch = ''main'', c_Hash = ''15'', c_Parent = [],
      c_AuthorName = ''Alice'', c_AuthorID = ''a1'', c_Message = ''auto commit'',
      c_ContentHash = ''03'', c_Timestamp = 1, c_Archived = False\<rparr>"

definition example_policy :: RetentionPolicy where
  "example_policy =
     \<lparr>p_Repo = ''analytics'', p_HotCommitLimit = 1, p_HotDuration = 0, p_Locked = False\<rparr>"


text \<open>The empty store after the policy "at most one hot commit" was set for \<open>analytics\<close>.\<close>

definition example_store :: kstore where
  "example_store = snd (keydb_SetPolicy 0 example_policy (NewKeyDBStore example_opts))"

text \<open>
  A session of five calls: a hot limit of one commit, a write to \<open>main\<close>, a write to
  \<open>dev\<close> (which archives the first commit), a write to \<open>main\<close> by a new author, and a
  write to \<open>dev\<close> under the new author's id with another name.
\<close>

definition example_request :: "string \<Rightarrow> string \<Rightarrow> string \<Rightarrow> string \<Rightarrow> BlobWriteRequest" where
  "example_request branch content authorName authorID =
     \<lparr>w_Name = ''analytics'', w_Branch = branch, w_Content = content,
      w_AuthorName = authorName, w_AuthorID = authorID\<rparr>"

definition example_session :: "op list" where
  "example_session =
     [SetPolicy 0 example_policy,
      PutBlobAndCommit 1 1 (example_request ''main'' ''one'' ''Alice'' ''a1''),
      PutBlobAndCommit 2 2 (example_request ''dev'' ''second'' ''Alice'' ''a1''),
      PutBlobAndCommit 3 3 (example_request ''main'' ''three'' ''Bob'' ''b1''),
      PutBlobAndCommit 4 4 (example_request ''dev'' ''four'' ''Robert'' ''b1'')]"

text \<open>Two policies that differ by three tenths of a second in their hot duration.\<close>

definition example_policy_1500ms :: RetentionPolicy where
  "example_policy_1500ms =
     \<lparr>p_Repo = ''analytics'', p_HotCommitLimit = 1, p_HotDuration = 1500000000,
      p_Locked = False\<rparr>"

definition example_policy_1200ms :: RetentionPolicy where
  "example_policy_1200ms =
     \<lparr>p_Repo = ''analytics'', p_HotCommitLimit = 1, p_HotDuration = 1200000000,
      p_Locked = False\<rparr>"


section \<open>Predicates of the statements below\<close>

text \<open>
  \<open>holds_commit repo hash c content s\<close>: in store \<open>s\<close>, \<^verbatim>\<open>GetCommit(repo, hash)\<close> succeeds
  and returns \<open>content\<close> with the metadata \<open>c\<close>, up to the archived flag.
\<close>

definition holds_commit :: "string \<Rightarrow> string \<Rightarrow> Commit \<Rightarrow> string \<Rightarrow> kstore \<Rightarrow> bool" where
  "holds_commit repo hash c content s =
     (\<exists>a. keydb_GetCommit repo hash s = Inr (c\<lparr>c_Archived := a\<rparr>, content))"

text \<open>
  \<open>same_directory s s'\<close>: the two stores agree on everything but commit records, hot
  content and the payloads of the archive.
\<close>

definition same_directory :: "kstore \<Rightarrow> kstore \<Rightarrow> bool" where
  "same_directory s s' \<longleftrightarrow>
     k_branches s' = k_branches s \<and> k_branchset s' = k_branchset s \<and> k_tags s' = k_tags s \<and>
     k_tagset s' = k_tagset s \<and> k_index s' = k_index s \<and> k_authors s' = k_authors s \<and>
     k_policies s' = k_policies s \<and> k_defaultPolicy s' = k_defaultPolicy s \<and>
     (k_archive s' = None \<longleftrightarrow> k_archive s = None)"

definition example_result :: BlobCommitResult where
  "example_result =
     \<lparr>r_CommitHash = ''15'', r_Branch = ''main'', r_CreatedAt = 1,
      r_Diff = ''--- previous+++ currentone''\<rparr>"

text \<open>
  \<open>commit_evolves c c'\<close>: \<open>c'\<close> is \<open>c\<close> except, possibly, for the archived flag, which
  is set in \<open>c'\<close> if it is set in \<open>c\<close>. \<open>commits_evolve s s'\<close>: every commit record of
  \<open>s\<close> is still there in \<open>s'\<close>, under the same key, and has evolved in that way.
\<close>

definition commit_evolves :: "Commit \<Rightarrow> Commit \<Rightarrow> bool" where
  "commit_evolves c c' \<longleftrightarrow>
     c_Repo c' = c_Repo c \<and> c_Branch c' = c_Branch c \<and> c_Hash c' = c_Hash c \<and>
     c_Parent c' = c_Parent c \<and> c_AuthorName c' = c_AuthorName c \<and>
     c_AuthorID c' = c_AuthorID c \<and> c_Message c' = c_Message c \<and>
     c_ContentHash c' = c_ContentHash c \<and> c_Timestamp c' = c_Timestamp c \<and>
     (c_Archived c \<longrightarrow> c_Archived c')"

definition commits_evolve :: "kstore \<Rightarrow> kstore \<Rightarrow> bool" where
  "commits_evolve s s' \<longleftrightarrow>
     (\<forall>key c. k_commits s key = Some c \<longrightarrow>
        (\<exists>c'. k_commits s' key = Some c' \<and> commit_evolves c c'))"

text \<open>
  \<open>writes_to repo x\<close>: the call \<open>x\<close> is one of the three that record a commit, a branch
  or a tag, and it names the repository \<open>repo\<close>.
\<close>

fun writes_to :: "string \<Rightarrow> op \<Rightarrow> bool" where
  "writes_to repo (PutBlobAndCommit now clk req) = (w_Name req = repo)"
| "writes_to repo (UpsertBranch now req) = (br_Repo req = repo)"
| "writes_to repo (CreateTag now req) = (tr_Repo req = repo)"
| "writes_to repo x = False"

definition unwritten :: "string \<Rightarrow> kstore \<Rightarrow> bool" where
  "unwritten repo s \<longleftrightarrow>
     k_index s (repoCommitsKey repo) = [] \<and> k_branchset s (branchSetKey repo) = [] \<and>
     k_tagset s (tagSetKey repo) = []"

text \<open>
  \<open>branch_head repo branch s\<close>: the commit the branch points at, the empty string for a
  branch not seen yet. \<open>write_payload L now req s\<close>: the five inputs of the commit hash of
  a write, joined by newlines as \<^verbatim>\<open>computeCommitHash\<close> joins them.
\<close>

definition branch_head :: "string \<Rightarrow> string \<Rightarrow> kstore \<Rightarrow> string" where
  "branch_head repo branch s =
     (case k_branches s (branchKey repo branch) of None \<Rightarrow> [] | Some b \<Rightarrow> b_Commit b)"






text \<open>
  \<open>written_commit L now req branch s\<close>: the commit record a successful write of \<open>req\<close>
  to \<open>branch\<close> at time \<open>now\<close> stores, in store \<open>s\<close>.
\<close>

definition written_commit :: "lib \<Rightarrow> int \<Rightarrow> BlobWriteRequest \<Rightarrow> string \<Rightarrow> kstore \<Rightarrow> Commit" where
  "written_commit L now req branch s =
     \<lparr>c_Repo = w_Name req, c_Branch = branch,
      c_Hash = computeCommitHash L (w_Name req) branch (w_Content req)
                 (branch_head (w_Name req) branch s) now,
      c_Parent = branch_head (w_Name req) branch s, c_AuthorName = w_AuthorName req,
      c_AuthorID = w_AuthorID req, c_Message = ''auto commit'',
      c_ContentHash = computeContentHash L (w_Content req), c_Timestamp = now,
      c_Archived = False\<rparr>"

text \<open>
  \<open>hashes_clean s\<close>: no commit record of \<open>s\<close> has a colon in its hash. Hashes are
  hexadecimal, so this holds in every store the operations can build from an empty
  database; it is what keeps the keys of two commits of different repositories apart.
\<close>

definition hashes_clean :: "kstore \<Rightarrow> bool" where
  "hashes_clean s \<longleftrightarrow> (\<forall>key c. k_commits s key = Some c \<longrightarrow> CHR '':'' \<notin> set (c_Hash c))"

section \<open>Properties\<close>

lemmas example_defs =
  example_lib_def example_opts_def example_write_def NewKeyDBStore_def

lemmas keydb_write_defs =
  keydb_PutBlobAndCommit_def keydb_watch_def Let_def defaultBranch_def
  keydb_getPolicy_def keydb_GetPolicy_def WithRepo_def toPolicy_def
  computeCommitHash_def computeContentHash_def commitPayload_def computeDiff_def hexEncode_def
  hexdigit_def
  commitKey_def contentKey_def branchKey_def authorKey_def policyKey_def
  repoCommitsKey_def branchSetKey_def

subsection \<open>Keys, the archive and retention\<close>

text \<open>Keys of two different kinds never coincide.\<close>

lemma key_kinds_distinct:
  "commitKey r h \<noteq> contentKey r' h'" "commitKey r h \<noteq> branchKey r' b"
  "commitKey r h \<noteq> repoCommitsKey r'" "commitKey r h \<noteq> branchSetKey r'"
  "commitKey r h \<noteq> tagKey r' t" "commitKey r h \<noteq> tagSetKey r'"
  "commitKey r h \<noteq> authorKey r' a" "commitKey r h \<noteq> policyKey r'"
  "contentKey r h \<noteq> branchKey r' b" "contentKey r h \<noteq> repoCommitsKey r'"
  "contentKey r h \<noteq> branchSetKey r'" "contentKey r h \<noteq> tagKey r' t"
  "contentKey r h \<noteq> tagSetKey r'" "contentKey r h \<noteq> authorKey r' a"
  "contentKey r h \<noteq> policyKey r'"
  "branchKey r b \<noteq> repoCommitsKey r'" "branchKey r b \<noteq> branchSetKey r'"
  "branchKey r b \<noteq> tagKey r' t" "branchKey r b \<noteq> tagSetKey r'"
  "branchKey r b \<noteq> authorKey r' a" "branchKey r b \<noteq> policyKey r'"
  "repoCommitsKey r \<noteq> branchSetKey r'" "repoCommitsKey r \<noteq> tagKey r' t"
  "repoCommitsKey r \<noteq> tagSetKey r'" "repoCommitsKey r \<noteq> authorKey r' a"
  "repoCommitsKey r \<noteq> policyKey r'"
  "branchSetKey r \<noteq> tagKey r' t" "branchSetKey r \<noteq> tagSetKey r'"
  "branchSetKey r \<noteq> authorKey r' a" "branchSetKey r \<noteq> policyKey r'"
  "tagKey r t \<noteq> tagSetKey r'" "tagKey r t \<noteq> authorKey r' a" "tagKey r t \<noteq> policyKey r'"
  "tagSetKey r \<noteq> authorKey r' a" "tagSetKey r \<noteq> policyKey r'"
  "authorKey r a \<noteq> policyKey r'"
  by (simp_all add: commitKey_def contentKey_def branchKey_def repoCommitsKey_def
      branchSetKey_def tagKey_def tagSetKey_def authorKey_def policyKey_def)


lemma of_char_div16: "(of_char (b::char) :: nat) div 16 < 16"
proof -
  have "(of_char b :: nat) < 16 * 16" by simp
  then show ?thesis by (simp only: less_mult_imp_div_less)
qed


lemma no_colon_hexdigit: "n < 16 \<Longrightarrow> hexdigit n \<noteq> CHR '':''"
proof -
  assume "n < 16"
  then have "hexdigit n \<in> set ''0123456789abcdef''"
    unfolding hexdigit_def by (intro nth_mem) simp
  then show ?thesis by auto
qed

lemma no_colon_hexEncode: "CHR '':'' \<notin> set (hexEncode bs)"
proof -
  have "hexdigit (of_char b div 16) \<noteq> CHR '':''" "hexdigit (of_char b mod 16) \<noteq> CHR '':''" for b :: char
    by (rule no_colon_hexdigit, simp add: of_char_div16)+
  then show ?thesis
    by (fastforce simp: hexEncode_def)
qed


lemma commitKey_same_repo [simp]: "commitKey r h = commitKey r h' \<longleftrightarrow> h = h'"
  by (simp add: commitKey_def)

lemma contentKey_same_repo [simp]: "contentKey r h = contentKey r h' \<longleftrightarrow> h = h'"
  by (simp add: contentKey_def)

lemma contentKey_eq_commitKey: "contentKey r h = contentKey r' h' \<longleftrightarrow> commitKey r h = commitKey r' h'"
  by (simp add: contentKey_def commitKey_def)

lemma archive_Fetch_Store:
  "archive_Fetch r h (archive_Store r' h' p m) =
     (if r = r' \<and> h = h' then Inr p else archive_Fetch r h m)"
  by (auto simp: archive_Fetch_def archive_Store_def split: option.splits)

lemma archiveCommit_holds:
  assumes "holds_commit repo hash c0 C s"
    and "commitKey r' h' = commitKey repo hash \<Longrightarrow> r' = repo \<and> h' = hash"
  shows "holds_commit repo hash c0 C (snd (keydb_archiveCommit r' h' s))"
proof (cases "commitKey r' h' = commitKey repo hash")
  case True
  with assms(2) have eq: "r' = repo" "h' = hash" by auto
  from assms(1) show ?thesis
    unfolding eq holds_commit_def keydb_archiveCommit_def keydb_GetCommit_def
    by (auto simp: archive_Fetch_Store split: option.splits sum.splits)
next
  case False
  then have ne: "contentKey r' h' \<noteq> contentKey repo hash" "\<not> (repo = r' \<and> hash = h')"
    by (auto simp: contentKey_eq_commitKey)
  from assms(1) False ne show ?thesis
    unfolding holds_commit_def keydb_archiveCommit_def keydb_GetCommit_def
    by (auto simp: archive_Fetch_Store split: option.splits sum.splits)
qed

lemma same_directory_refl [simp]: "same_directory s s"
  by (simp add: same_directory_def)

lemma same_directory_trans: "same_directory s s' \<Longrightarrow> same_directory s' s'' \<Longrightarrow> same_directory s s''"
  by (simp add: same_directory_def)

lemma archiveCommit_directory: "same_directory s (snd (keydb_archiveCommit r h s))"
  by (auto simp: same_directory_def keydb_archiveCommit_def split: option.splits sum.splits)

lemma fold_archiveCommit_directory:
  "same_directory s (fold (\<lambda>hash st. snd (keydb_archiveCommit r hash st)) hs s)"
proof (induction hs arbitrary: s)
  case Nil
  show ?case by simp
next
  case (Cons h hs)
  show ?case
    using same_directory_trans [OF archiveCommit_directory Cons.IH] by simp
qed

lemma enforceRetention_directory: "same_directory s (keydb_enforceRetention clk r p s)"
  by (simp add: keydb_enforceRetention_def fold_archiveCommit_directory)

lemma fold_archiveCommit_holds:
  assumes "holds_commit repo hash c0 C s"
    and "\<forall>h'\<in>set hs. commitKey r' h' = commitKey repo hash \<longrightarrow> r' = repo \<and> h' = hash"
  shows "holds_commit repo hash c0 C (fold (\<lambda>hash st. snd (keydb_archiveCommit r' hash st)) hs s)"
  using assms
proof (induction hs arbitrary: s)
  case Nil
  then show ?case by simp
next
  case (Cons h hs)
  have step: "holds_commit repo hash c0 C (snd (keydb_archiveCommit r' h s))"
    using Cons.prems(2) by (intro archiveCommit_holds [OF Cons.prems(1)]) simp
  have rest: "\<forall>h'\<in>set hs. commitKey r' h' = commitKey repo hash \<longrightarrow> r' = repo \<and> h' = hash"
    using Cons.prems(2) by simp
  show ?case
    using Cons.IH [OF step rest] by simp
qed

lemma enforceRetention_holds_same_repo:
  assumes "holds_commit repo hash c0 C s"
  shows "holds_commit repo hash c0 C (keydb_enforceRetention clk repo p s)"
  unfolding keydb_enforceRetention_def
  using fold_archiveCommit_holds [OF assms, of _ repo] assms by simp



lemma keydb_PutBlobAndCommit_InrD:
  assumes "keydb_PutBlobAndCommit L now clk req s = (Inr res, s')"
  obtains s1 where
    "w_Name req \<noteq> []" "w_Content req \<noteq> []" "w_AuthorName req \<noteq> []" "w_AuthorID req \<noteq> []"
    "keydb_watch L now req (if w_Branch req = [] then defaultBranch else w_Branch req) s = Inr (res, s1)"
    "s' = keydb_enforceRetention clk (w_Name req) (keydb_getPolicy (w_Name req) s) s1"
  using assms
  by (auto simp: keydb_PutBlobAndCommit_def Let_def split: if_splits sum.splits prod.splits)

lemma keydb_PutBlobAndCommit_InlD:
  assumes "keydb_PutBlobAndCommit L now clk req s = (Inl err, s')"
  shows "s' = s"
  using assms
  by (auto simp: keydb_PutBlobAndCommit_def Let_def split: if_splits sum.splits prod.splits)

subsection \<open>C1: a failed write changes nothing\<close>



subsection \<open>C3: what a successful write leaves behind\<close>



subsection \<open>C9: commit records are immutable but for the archived flag\<close>

lemma commit_evolves_refl [simp]: "commit_evolves c c"
  by (simp add: commit_evolves_def)

lemma commit_evolves_trans: "commit_evolves c c' \<Longrightarrow> commit_evolves c' c'' \<Longrightarrow> commit_evolves c c''"
  by (simp add: commit_evolves_def)

lemma commits_evolve_refl [simp]: "commits_evolve s s"
  by (auto simp: commits_evolve_def)

lemma commits_evolve_trans:
  "commits_evolve s s' \<Longrightarrow> commits_evolve s' s'' \<Longrightarrow> commits_evolve s s''"
  unfolding commits_evolve_def by (meson commit_evolves_trans)

lemma commits_evolve_same: "k_commits s' = k_commits s \<Longrightarrow> commits_evolve s s'"
  by (auto simp: commits_evolve_def)

lemma archiveCommit_evolves: "commits_evolve s (snd (keydb_archiveCommit r h s))"
  by (auto simp: commits_evolve_def commit_evolves_def keydb_archiveCommit_def keydb_GetCommit_def
      split: option.splits sum.splits)

lemma fold_archiveCommit_evolves:
  "commits_evolve s (fold (\<lambda>hash st. snd (keydb_archiveCommit r hash st)) hs s)"
proof (induction hs arbitrary: s)
  case Nil
  show ?case by simp
next
  case (Cons h hs)
  show ?case
    using commits_evolve_trans [OF archiveCommit_evolves Cons.IH] by simp
qed

lemma enforceRetention_evolves: "commits_evolve s (keydb_enforceRetention clk r p s)"
  by (simp add: keydb_enforceRetention_def fold_archiveCommit_evolves)

lemma keydb_watch_evolves:
  assumes "keydb_watch L now req branch s = Inr (res, s')"
  shows "commits_evolve s s'"
  using assms
  by (auto simp: keydb_watch_def Let_def commits_evolve_def split: if_splits sum.splits option.splits)

lemma keydb_PutBlobAndCommit_evolves:
  "commits_evolve s (snd (keydb_PutBlobAndCommit L now clk req s))"
proof (cases "fst (keydb_PutBlobAndCommit L now clk req s)")
  case (Inl err)
  then have "keydb_PutBlobAndCommit L now clk req s = (Inl err, snd (keydb_PutBlobAndCommit L now clk req s))"
    by (metis prod.collapse)
  then show ?thesis
    by (auto simp: keydb_PutBlobAndCommit_def Let_def split: if_splits sum.splits prod.splits)
next
  case (Inr res)
  then have "keydb_PutBlobAndCommit L now clk req s = (Inr res, snd (keydb_PutBlobAndCommit L now clk req s))"
    by (metis prod.collapse)
  then obtain s1 where
    watch: "keydb_watch L now req (if w_Branch req = [] then defaultBranch else w_Branch req) s = Inr (res, s1)"
    and s': "snd (keydb_PutBlobAndCommit L now clk req s)
       = keydb_enforceRetention clk (w_Name req) (keydb_getPolicy (w_Name req) s) s1"
    by (rule keydb_PutBlobAndCommit_InrD)
  show ?thesis
    unfolding s'
    by (rule commits_evolve_trans [OF keydb_watch_evolves [OF watch] enforceRetention_evolves])
qed

lemma keydb_SetPolicy_evolves: "commits_evolve s (snd (keydb_SetPolicy clk policy s))"
proof -
  have "commits_evolve s (s\<lparr>k_policies := m\<rparr>)" for m
    by (rule commits_evolve_same) simp
  then show ?thesis
    by (auto simp: keydb_SetPolicy_def Let_def intro: commits_evolve_trans [OF _ enforceRetention_evolves])
qed

lemma keydb_UpsertBranch_evolves: "commits_evolve s (snd (keydb_UpsertBranch now req s))"
  by (auto simp: keydb_UpsertBranch_def Let_def intro!: commits_evolve_same split: sum.splits)

lemma keydb_CreateTag_evolves: "commits_evolve s (snd (keydb_CreateTag now req s))"
  by (auto simp: keydb_CreateTag_def Let_def intro!: commits_evolve_same split: sum.splits)

lemma snd_case_prod_pair [simp]: "snd (case p of (r, s') \<Rightarrow> (f r, s')) = snd p"
  by (cases p) simp

lemma keydb_step_evolves: "commits_evolve s (snd (keydb_step L x s))"
  by (cases x)
    (simp_all add: keydb_PutBlobAndCommit_evolves keydb_SetPolicy_evolves
      keydb_UpsertBranch_evolves keydb_CreateTag_evolves)

lemma snd_keydb_run_Cons:
  "snd (keydb_run L (x # xs) s) = snd (keydb_run L xs (snd (keydb_step L x s)))"
  by (simp split: prod.splits)

lemma keydb_run_evolves: "commits_evolve s (snd (keydb_run L ops s))"
proof (induction ops arbitrary: s)
  case Nil
  show ?case by simp
next
  case (Cons x xs)
  show ?case
    unfolding snd_keydb_run_Cons
    by (rule commits_evolve_trans [OF keydb_step_evolves Cons.IH])
qed

text \<open>
  Claim C9. A commit record found in the store, in any state at all, is still there
  after any sequence of store operations, under the same key and with the same
  repository, branch, hash, parent, author name, author id, message, content fingerprint
  and creation timestamp; its archived flag is the only field that may differ, and once
  set it stays set.
\<close>

theorem keydb_commit_fields_immutable:
  assumes "k_commits s key = Some c"
  shows "\<exists>c'. k_commits (snd (keydb_run L ops s)) key = Some c' \<and> commit_evolves c c'"
  using keydb_run_evolves [of s L ops] assms
  by (simp add: commits_evolve_def)

theorem keydb_commit_fields_immutable_witness:
  "k_commits (snd (keydb_PutBlobAndCommit example_lib 1 1 example_write (NewKeyDBStore example_opts)))
      (commitKey ''analytics'' ''15'') = Some example_commit
   \<and> (\<exists>c'. k_commits
          (snd (keydb_run example_lib
             [SetPolicy 2 example_policy,
              PutBlobAndCommit 3 3 (example_write\<lparr>w_Content := ''two''\<rparr>)]
             (snd (keydb_PutBlobAndCommit example_lib 1 1 example_write (NewKeyDBStore example_opts)))))
          (commitKey ''analytics'' ''15'') = Some c'
        \<and> commit_evolves example_commit c')"
proof -
  have h: "k_commits (snd (keydb_PutBlobAndCommit example_lib 1 1 example_write (NewKeyDBStore example_opts)))
      (commitKey ''analytics'' ''15'') = Some example_commit"
    by (simp add: keydb_write_defs example_defs example_commit_def keydb_enforceRetention_def)
  from keydb_commit_fields_immutable [OF h] h show ?thesis
    by blast
qed

subsection \<open>C10: listings of a repository nothing was written to\<close>

lemma repoCommitsKey_inj [simp]: "repoCommitsKey r = repoCommitsKey r' \<longleftrightarrow> r = r'"
  by (simp add: repoCommitsKey_def)

lemma branchSetKey_inj [simp]: "branchSetKey r = branchSetKey r' \<longleftrightarrow> r = r'"
  by (simp add: branchSetKey_def)

lemma tagSetKey_inj [simp]: "tagSetKey r = tagSetKey r' \<longleftrightarrow> r = r'"
  by (simp add: tagSetKey_def)

lemma unwritten_same_directory: "same_directory s s' \<Longrightarrow> unwritten repo s \<Longrightarrow> unwritten repo s'"
  by (simp add: same_directory_def unwritten_def)

lemma unwritten_New: "unwritten repo (NewKeyDBStore opts)"
  by (simp add: unwritten_def NewKeyDBStore_def)

lemma keydb_watch_unwritten:
  assumes "keydb_watch L now req branch s = Inr (res, s')" "w_Name req \<noteq> repo" "unwritten repo s"
  shows "unwritten repo s'"
  using assms
  by (auto simp: keydb_watch_def Let_def unwritten_def split: if_splits sum.splits option.splits)

lemma keydb_PutBlobAndCommit_unwritten:
  assumes "w_Name req \<noteq> repo" "unwritten repo s"
  shows "unwritten repo (snd (keydb_PutBlobAndCommit L now clk req s))"
proof (cases "fst (keydb_PutBlobAndCommit L now clk req s)")
  case (Inl err)
  then have "keydb_PutBlobAndCommit L now clk req s = (Inl err, snd (keydb_PutBlobAndCommit L now clk req s))"
    by (metis prod.collapse)
  from keydb_PutBlobAndCommit_InlD [OF this] assms(2) show ?thesis
    by simp
next
  case (Inr res)
  then have "keydb_PutBlobAndCommit L now clk req s = (Inr res, snd (keydb_PutBlobAndCommit L now clk req s))"
    by (metis prod.collapse)
  then obtain s1 where
    watch: "keydb_watch L now req (if w_Branch req = [] then defaultBranch else w_Branch req) s = Inr (res, s1)"
    and s': "snd (keydb_PutBlobAndCommit L now clk req s)
       = keydb_enforceRetention clk (w_Name req) (keydb_getPolicy (w_Name req) s) s1"
    by (rule keydb_PutBlobAndCommit_InrD)
  show ?thesis
    unfolding s'
    by (rule unwritten_same_directory [OF enforceRetention_directory
          keydb_watch_unwritten [OF watch assms]])
qed

lemma keydb_UpsertBranch_unwritten:
  assumes "br_Repo req \<noteq> repo" "unwritten repo s"
  shows "unwritten repo (snd (keydb_UpsertBranch now req s))"
  using assms
  by (auto simp: keydb_UpsertBranch_def Let_def unwritten_def split: sum.splits)

lemma keydb_CreateTag_unwritten:
  assumes "tr_Repo req \<noteq> repo" "unwritten repo s"
  shows "unwritten repo (snd (keydb_CreateTag now req s))"
  using assms
  by (auto simp: keydb_CreateTag_def Let_def unwritten_def split: sum.splits)

lemma keydb_SetPolicy_unwritten:
  assumes "unwritten repo s"
  shows "unwritten repo (snd (keydb_SetPolicy clk policy s))"
proof -
  have "unwritten repo (s\<lparr>k_policies := m\<rparr>)" for m
    using assms by (simp add: unwritten_def)
  then show ?thesis
    using assms
    by (auto simp: keydb_SetPolicy_def Let_def intro: unwritten_same_directory [OF enforceRetention_directory])
qed

lemma keydb_step_unwritten:
  assumes "\<not> writes_to repo x" "unwritten repo s"
  shows "unwritten repo (snd (keydb_step L x s))"
  using assms
  by (cases x)
    (simp_all add: keydb_PutBlobAndCommit_unwritten keydb_UpsertBranch_unwritten
      keydb_CreateTag_unwritten keydb_SetPolicy_unwritten)

lemma keydb_run_unwritten:
  assumes "\<forall>x\<in>set ops. \<not> writes_to repo x" "unwritten repo s"
  shows "unwritten repo (snd (keydb_run L ops s))"
  using assms
proof (induction ops arbitrary: s)
  case Nil
  then show ?case by simp
next
  case (Cons x xs)
  have "unwritten repo (snd (keydb_step L x s))"
    using Cons.prems by (intro keydb_step_unwritten) simp_all
  then show ?case
    unfolding snd_keydb_run_Cons using Cons.IH Cons.prems(1) by simp
qed

lemma unwritten_lists_empty:
  assumes "unwritten repo s"
  shows "keydb_ListCommits \<lparr>l_Repo = repo, l_Descending = descending, l_Limit = limit\<rparr> s = []
    \<and> keydb_ListBranches repo s = [] \<and> keydb_ListTags repo s = []"
  using assms
  by (simp add: unwritten_def keydb_ListCommits_def keydb_ListBranches_def keydb_ListTags_def
      Let_def zrange_def zrevrange_def)

text \<open>
  Claim C10. Start from an empty database and run any sequence of store operations none
  of which records a commit, a branch or a tag for the repository \<open>repo\<close> (writes to
  other repositories, policy changes and reads of any repository are all allowed). Then
  \<^verbatim>\<open>ListCommits\<close> (in either direction, with any limit), \<^verbatim>\<open>ListBranches\<close> and
  \<^verbatim>\<open>ListTags\<close> of \<open>repo\<close> return the empty list. These three operations return a list
  and nothing else, so they have no error to report.
\<close>

theorem keydb_lists_of_unwritten_repository:
  assumes "\<forall>x\<in>set ops. \<not> writes_to repo x"
  shows "keydb_ListCommits \<lparr>l_Repo = repo, l_Descending = descending, l_Limit = limit\<rparr>
           (snd (keydb_run L ops (NewKeyDBStore opts))) = []
    \<and> keydb_ListBranches repo (snd (keydb_run L ops (NewKeyDBStore opts))) = []
    \<and> keydb_ListTags repo (snd (keydb_run L ops (NewKeyDBStore opts))) = []"
  by (rule unwritten_lists_empty [OF keydb_run_unwritten [OF assms unwritten_New]])

theorem keydb_lists_of_unwritten_repository_witness:
  "\<not> writes_to ''fresh'' (PutBlobAndCommit 1 1 example_write)
   \<and> \<not> writes_to ''fresh'' (SetPolicy 2 (example_policy\<lparr>p_Repo := ''fresh''\<rparr>))
   \<and> \<not> writes_to ''fresh'' (GetBranch ''fresh'' ''main'')
   \<and> keydb_ListCommits \<lparr>l_Repo = ''fresh'', l_Descending = True, l_Limit = 0\<rparr>
        (snd (keydb_run example_lib
           [PutBlobAndCommit 1 1 example_write, SetPolicy 2 (example_policy\<lparr>p_Repo := ''fresh''\<rparr>),
            GetBranch ''fresh'' ''main''] (NewKeyDBStore example_opts))) = []
   \<and> keydb_ListBranches ''fresh''
        (snd (keydb_run example_lib
           [PutBlobAndCommit 1 1 example_write, SetPolicy 2 (example_policy\<lparr>p_Repo := ''fresh''\<rparr>),
            GetBranch ''fresh'' ''main''] (NewKeyDBStore example_opts))) = []
   \<and> keydb_ListTags ''fresh''
        (snd (keydb_run example_lib
           [PutBlobAndCommit 1 1 example_write, SetPolicy 2 (example_policy\<lparr>p_Repo := ''fresh''\<rparr>),
            GetBranch ''fresh'' ''main''] (NewKeyDBStore example_opts))) = []"
proof -
  have w: "\<not> writes_to ''fresh'' (PutBlobAndCommit 1 1 example_write)"
    "\<not> writes_to ''fresh'' (SetPolicy 2 (example_policy\<lparr>p_Repo := ''fresh''\<rparr>))"
    "\<not> writes_to ''fresh'' (GetBranch ''fresh'' ''main'')"
    by (simp_all add: example_write_def)
  then have h: "\<forall>x\<in>set [PutBlobAndCommit 1 1 example_write,
      SetPolicy 2 (example_policy\<lparr>p_Repo := ''fresh''\<rparr>), GetBranch ''fresh'' ''main''].
      \<not> writes_to ''fresh'' x"
    by simp
  from keydb_lists_of_unwritten_repository [OF h] w show ?thesis
    by blast
qed

subsection \<open>C7: how the commit hash is derived\<close>

lemma keydb_watch_hash:
  assumes "keydb_watch L now req branch s = Inr (res, s')"
  shows "r_CommitHash res
     = computeCommitHash L (w_Name req) branch (w_Content req) (branch_head (w_Name req) branch s) now"
  using assms
  by (auto simp: keydb_watch_def Let_def branch_head_def split: if_splits sum.splits option.splits)


lemma commit_hash_collision_any_library:
  "computeCommitHash L ''a\<newline>b'' ''c'' content parent ts
     = computeCommitHash L ''a'' ''b\<newline>c'' content parent ts"
  by (simp add: computeCommitHash_def commitPayload_def)











lemma digest_of_fixed_length_collides:
  assumes "\<forall>p. length (sha256 L p) = n"
  shows "\<exists>c1 c2. c1 \<noteq> c2
    \<and> computeCommitHash L repo branch c1 parent ts = computeCommitHash L repo branch c2 parent ts"
proof (rule ccontr)
  let ?g = "\<lambda>c. sha256 L (commitPayload L repo branch c parent ts)"
  assume "\<not> ?thesis"
  then have "inj (\<lambda>c. hexEncode (?g c))"
    by (auto simp: inj_on_def computeCommitHash_def)
  then have inj: "inj ?g"
    by (auto simp: inj_on_def)
  have "range ?g \<subseteq> {xs. set xs \<subseteq> UNIV \<and> length xs = n}"
    using assms by auto
  moreover have "finite {xs :: string. set xs \<subseteq> UNIV \<and> length xs = n}"
    by (rule finite_lists_length_eq) simp
  ultimately have "finite (range ?g)"
    by (rule finite_subset)
  with inj have "finite (UNIV :: string set)"
    by (rule finite_imageD [rotated])
  then show False
    by (simp add: infinite_UNIV_listI)
qed




subsection \<open>C5: a hot limit of one commit, two writes\<close>

lemma keydb_watch_fields:
  assumes "keydb_watch L now req branch s = Inr (res, s')"
  shows "k_commits s (commitKey (w_Name req) (r_CommitHash res)) = None
    \<and> c_Hash (written_commit L now req branch s) = r_CommitHash res
    \<and> k_commits s' = (k_commits s)(commitKey (w_Name req) (r_CommitHash res) \<mapsto>
          written_commit L now req branch s)
    \<and> k_contents s' = (k_contents s)(contentKey (w_Name req) (r_CommitHash res) \<mapsto> w_Content req)
    \<and> k_index s' = (k_index s)(repoCommitsKey (w_Name req) :=
          zadd (float64 now) (r_CommitHash res) (k_index s (repoCommitsKey (w_Name req))))
    \<and> k_archive s' = k_archive s \<and> k_policies s' = k_policies s
    \<and> k_defaultPolicy s' = k_defaultPolicy s"
  using assms
  by (auto simp: keydb_watch_def Let_def branch_head_def written_commit_def
      split: if_splits sum.splits option.splits)

lemma written_commit_not_archived [simp]: "\<not> c_Archived (written_commit L now req branch s)"
  by (simp add: written_commit_def)






lemmas keydb_retention_defs =
  keydb_SetPolicy_def keydb_enforceRetention_def toArchive_def keydb_entries_def zrange_def
  zadd_def sadd_def keydb_getCommitMetadata_def keydb_archiveCommit_def keydb_GetCommit_def
  second_def List.map_filter_def float64_def archive_Store_def archive_Fetch_def
  example_store_def example_policy_def



subsection \<open>C4: a commit's content stays readable\<close>

lemma colon_split_unique:
  assumes "CHR '':'' \<notin> set h" "CHR '':'' \<notin> set h'" "r @ CHR '':'' # h = r' @ CHR '':'' # h'"
  shows "r = r' \<and> h = h'"
  using assms
proof (induction r arbitrary: r')
  case Nil
  then show ?case by (cases r') auto
next
  case (Cons x r)
  then show ?case by (cases r') auto
qed

lemma commitKey_clean_inj:
  assumes "CHR '':'' \<notin> set h" "CHR '':'' \<notin> set h'" "commitKey r h = commitKey r' h'"
  shows "r = r' \<and> h = h'"
  using colon_split_unique [OF assms(1,2)] assms(3) by (simp add: commitKey_def)

lemma hashes_clean_New: "hashes_clean (NewKeyDBStore opts)"
  by (simp add: hashes_clean_def NewKeyDBStore_def)

lemma hashes_clean_evolve:
  assumes "hashes_clean s" "k_commits s' = k_commits s"
  shows "hashes_clean s'"
  using assms by (simp add: hashes_clean_def)

lemma archiveCommit_clean: "hashes_clean s \<Longrightarrow> hashes_clean (snd (keydb_archiveCommit r h s))"
  by (auto simp: hashes_clean_def keydb_archiveCommit_def keydb_GetCommit_def
      split: option.splits sum.splits if_splits)

lemma fold_archiveCommit_clean:
  "hashes_clean s \<Longrightarrow> hashes_clean (fold (\<lambda>hash st. snd (keydb_archiveCommit r hash st)) hs s)"
  by (induction hs arbitrary: s) (simp_all add: archiveCommit_clean)

lemma enforceRetention_clean: "hashes_clean s \<Longrightarrow> hashes_clean (keydb_enforceRetention clk r p s)"
  by (simp add: keydb_enforceRetention_def fold_archiveCommit_clean)

lemma computeCommitHash_clean: "CHR '':'' \<notin> set (computeCommitHash L r b c p t)"
  by (simp add: computeCommitHash_def no_colon_hexEncode)

lemma keydb_watch_clean:
  assumes "keydb_watch L now req branch s = Inr (res, s')" "hashes_clean s"
  shows "hashes_clean s' \<and> CHR '':'' \<notin> set (r_CommitHash res)"
proof -
  note f = keydb_watch_fields [OF assms(1)]
  have h: "r_CommitHash res = computeCommitHash L (w_Name req) branch (w_Content req)
      (branch_head (w_Name req) branch s) now"
    using keydb_watch_hash [OF assms(1)] .
  have "CHR '':'' \<notin> set (c_Hash (written_commit L now req branch s))"
    by (simp add: written_commit_def computeCommitHash_clean)
  then have "hashes_clean s'"
    using assms(2) f by (auto simp: hashes_clean_def)
  then show ?thesis
    by (simp add: h computeCommitHash_clean)
qed

lemma set_toArchive: "set (toArchive clk policy entries) \<subseteq> e_hash ` set entries"
  by (auto simp: toArchive_def Let_def dest: in_set_takeD)

lemma keydb_entries_clean:
  assumes "hashes_clean s" "e \<in> set (keydb_entries repo s)"
  shows "CHR '':'' \<notin> set (e_hash e)"
  using assms
  by (auto simp: keydb_entries_def keydb_getCommitMetadata_def hashes_clean_def
      List.map_filter_def)

lemma enforceRetention_holds:
  assumes "holds_commit repo hash c0 C s" "hashes_clean s" "CHR '':'' \<notin> set hash"
  shows "holds_commit repo hash c0 C (keydb_enforceRetention clk r' p s)"
proof -
  have "\<forall>h'\<in>set (toArchive clk p (keydb_entries r' s)).
      commitKey r' h' = commitKey repo hash \<longrightarrow> r' = repo \<and> h' = hash"
  proof (intro ballI impI)
    fix h'
    assume "h' \<in> set (toArchive clk p (keydb_entries r' s))"
      and eq: "commitKey r' h' = commitKey repo hash"
    then obtain e where "e \<in> set (keydb_entries r' s)" "h' = e_hash e"
      using set_toArchive by blast
    then have "CHR '':'' \<notin> set h'"
      using keydb_entries_clean [OF assms(2)] by simp
    from commitKey_clean_inj [OF this assms(3) eq] show "r' = repo \<and> h' = hash" .
  qed
  from fold_archiveCommit_holds [OF assms(1) this] assms(1) show ?thesis
    by (simp add: keydb_enforceRetention_def)
qed

lemma holds_commit_cong:
  assumes "holds_commit repo hash c0 C s"
    "k_commits s' (commitKey repo hash) = k_commits s (commitKey repo hash)"
    "k_contents s' (contentKey repo hash) = k_contents s (contentKey repo hash)"
    "k_archive s' = k_archive s"
  shows "holds_commit repo hash c0 C s'"
proof -
  have "keydb_GetCommit repo hash s' = keydb_GetCommit repo hash s"
    using assms(2-4) by (simp add: keydb_GetCommit_def cong: option.case_cong)
  then show ?thesis
    using assms(1) by (simp add: holds_commit_def)
qed

lemma holds_commit_exists:
  "holds_commit repo hash c0 C s \<Longrightarrow> k_commits s (commitKey repo hash) \<noteq> None"
  by (auto simp: holds_commit_def keydb_GetCommit_def split: option.splits)

lemma keydb_watch_holds:
  assumes "keydb_watch L now req branch s = Inr (res, s')" "holds_commit repo hash c0 C s"
  shows "holds_commit repo hash c0 C s'"
proof -
  note f = keydb_watch_fields [OF assms(1)]
  from f holds_commit_exists [OF assms(2)]
  have ne: "commitKey (w_Name req) (r_CommitHash res) \<noteq> commitKey repo hash"
    by auto
  then have ne': "contentKey (w_Name req) (r_CommitHash res) \<noteq> contentKey repo hash"
    by (simp add: contentKey_eq_commitKey)
  show ?thesis
    by (rule holds_commit_cong [OF assms(2)]) (use f ne ne' in simp_all)
qed

lemma keydb_PutBlobAndCommit_holds:
  assumes "holds_commit repo hash c0 C s" "hashes_clean s" "CHR '':'' \<notin> set hash"
  shows "holds_commit repo hash c0 C (snd (keydb_PutBlobAndCommit L now clk req s))
    \<and> hashes_clean (snd (keydb_PutBlobAndCommit L now clk req s))"
proof (cases "fst (keydb_PutBlobAndCommit L now clk req s)")
  case (Inl err)
  then have "keydb_PutBlobAndCommit L now clk req s = (Inl err, snd (keydb_PutBlobAndCommit L now clk req s))"
    by (metis prod.collapse)
  from keydb_PutBlobAndCommit_InlD [OF this] assms show ?thesis
    by simp
next
  case (Inr res)
  then have "keydb_PutBlobAndCommit L now clk req s = (Inr res, snd (keydb_PutBlobAndCommit L now clk req s))"
    by (metis prod.collapse)
  then obtain s1 where
    watch: "keydb_watch L now req (if w_Branch req = [] then defaultBranch else w_Branch req) s = Inr (res, s1)"
    and s': "snd (keydb_PutBlobAndCommit L now clk req s)
       = keydb_enforceRetention clk (w_Name req) (keydb_getPolicy (w_Name req) s) s1"
    by (rule keydb_PutBlobAndCommit_InrD)
  have clean1: "hashes_clean s1"
    using keydb_watch_clean [OF watch assms(2)] by simp
  have holds1: "holds_commit repo hash c0 C s1"
    by (rule keydb_watch_holds [OF watch assms(1)])
  show ?thesis
    unfolding s'
    using enforceRetention_holds [OF holds1 clean1 assms(3)] enforceRetention_clean [OF clean1]
    by simp
qed

lemma keydb_SetPolicy_holds:
  assumes "holds_commit repo hash c0 C s" "hashes_clean s" "CHR '':'' \<notin> set hash"
  shows "holds_commit repo hash c0 C (snd (keydb_SetPolicy clk policy s))
    \<and> hashes_clean (snd (keydb_SetPolicy clk policy s))"
proof -
  have h: "holds_commit repo hash c0 C (s\<lparr>k_policies := m\<rparr>)" for m
    by (rule holds_commit_cong [OF assms(1)]) simp_all
  have c: "hashes_clean (s\<lparr>k_policies := m\<rparr>)" for m
    by (rule hashes_clean_evolve [OF assms(2)]) simp
  show ?thesis
    using assms h c
    by (auto simp: keydb_SetPolicy_def Let_def
        intro: enforceRetention_holds enforceRetention_clean)
qed

lemma keydb_UpsertBranch_holds:
  assumes "holds_commit repo hash c0 C s" "hashes_clean s"
  shows "holds_commit repo hash c0 C (snd (keydb_UpsertBranch now req s))
    \<and> hashes_clean (snd (keydb_UpsertBranch now req s))"
  using assms
  by (auto simp: keydb_UpsertBranch_def Let_def split: sum.splits
      intro: holds_commit_cong hashes_clean_evolve)

lemma keydb_CreateTag_holds:
  assumes "holds_commit repo hash c0 C s" "hashes_clean s"
  shows "holds_commit repo hash c0 C (snd (keydb_CreateTag now req s))
    \<and> hashes_clean (snd (keydb_CreateTag now req s))"
  using assms
  by (auto simp: keydb_CreateTag_def Let_def split: sum.splits
      intro: holds_commit_cong hashes_clean_evolve)

lemma keydb_step_holds:
  assumes "holds_commit repo hash c0 C s" "hashes_clean s" "CHR '':'' \<notin> set hash"
  shows "holds_commit repo hash c0 C (snd (keydb_step L x s))
    \<and> hashes_clean (snd (keydb_step L x s))"
  using assms
  by (cases x)
    (simp_all add: keydb_PutBlobAndCommit_holds keydb_SetPolicy_holds keydb_UpsertBranch_holds
      keydb_CreateTag_holds)

lemma keydb_run_holds:
  assumes "holds_commit repo hash c0 C s" "hashes_clean s" "CHR '':'' \<notin> set hash"
  shows "holds_commit repo hash c0 C (snd (keydb_run L ops s))
    \<and> hashes_clean (snd (keydb_run L ops s))"
  using assms
proof (induction ops arbitrary: s)
  case Nil
  then show ?case by simp
next
  case (Cons x xs)
  from keydb_step_holds [OF Cons.prems] Cons.IH Cons.prems(3) show ?case
    unfolding snd_keydb_run_Cons by blast
qed

lemma keydb_reachable_clean: "keydb_reachable L s \<Longrightarrow> hashes_clean s"
proof -
  have "hashes_clean (snd (keydb_run L ops s0))" if "hashes_clean s0" for ops s0
    using that
  proof (induction ops arbitrary: s0)
    case Nil
    then show ?case by simp
  next
    case (Cons x xs)
    have "hashes_clean (snd (keydb_step L x s0))"
    proof (cases x)
      case (PutBlobAndCommit now clk req)
      show ?thesis
      proof (cases "fst (keydb_PutBlobAndCommit L now clk req s0)")
        case (Inl err)
        then have "keydb_PutBlobAndCommit L now clk req s0
            = (Inl err, snd (keydb_PutBlobAndCommit L now clk req s0))"
          by (metis prod.collapse)
        from keydb_PutBlobAndCommit_InlD [OF this] Cons.prems show ?thesis
          by (simp add: PutBlobAndCommit)
      next
        case (Inr res)
        then have "keydb_PutBlobAndCommit L now clk req s0
            = (Inr res, snd (keydb_PutBlobAndCommit L now clk req s0))"
          by (metis prod.collapse)
        then obtain s1 where
          watch: "keydb_watch L now req (if w_Branch req = [] then defaultBranch else w_Branch req) s0
            = Inr (res, s1)"
          and s': "snd (keydb_PutBlobAndCommit L now clk req s0)
             = keydb_enforceRetention clk (w_Name req) (keydb_getPolicy (w_Name req) s0) s1"
          by (rule keydb_PutBlobAndCommit_InrD)
        show ?thesis
          using keydb_watch_clean [OF watch Cons.prems] enforceRetention_clean
          by (simp add: PutBlobAndCommit s')
      qed
    next
      case (SetPolicy clk policy)
      have "hashes_clean (s0\<lparr>k_policies := m\<rparr>)" for m
        by (rule hashes_clean_evolve [OF Cons.prems]) simp
      then show ?thesis
        using Cons.prems
        by (auto simp: SetPolicy keydb_SetPolicy_def Let_def intro: enforceRetention_clean)
    next
      case (UpsertBranch now req)
      then show ?thesis
        using Cons.prems
        by (auto simp: keydb_UpsertBranch_def Let_def split: sum.splits intro: hashes_clean_evolve)
    next
      case (CreateTag now req)
      then show ?thesis
        using Cons.prems
        by (auto simp: keydb_CreateTag_def Let_def split: sum.splits intro: hashes_clean_evolve)
    qed (use Cons.prems in simp_all)
    from Cons.IH [OF this] show ?case
      unfolding snd_keydb_run_Cons .
  qed
  then show "keydb_reachable L s \<Longrightarrow> hashes_clean s"
    by (auto simp: keydb_reachable_def hashes_clean_New)
qed

lemma keydb_GetCommit_error:
  assumes "keydb_GetCommit r h s = Inl e"
  shows "k_commits s (commitKey r h) = None
    \<or> (k_contents s (contentKey r h) = None
        \<and> (\<forall>a p. k_archive s = Some a \<longrightarrow> archive_Fetch r h a \<noteq> Inr p))"
  using assms
  by (auto simp: keydb_GetCommit_def split: option.splits sum.splits)

text \<open>
  Claim C4. Take a store built from an empty database by any sequence of operations, and
  a write that succeeds on it with content \<open>C\<close>. After any further sequence of store
  operations, \<^verbatim>\<open>GetCommit\<close> for the repository and the returned hash still succeeds and
  returns exactly \<open>C\<close>, whether the content is still in hot storage or retention has
  moved it to the archive. And in any store at all, \<^verbatim>\<open>GetCommit\<close> fails for a commit whose
  record exists only if its content is neither in hot storage nor in the archive.
\<close>

theorem keydb_GetCommit_returns_written_content:
  assumes "keydb_reachable L s0"
    and "keydb_PutBlobAndCommit L now clk req s0 = (Inr res, s1)"
  shows "(\<exists>c. keydb_GetCommit (w_Name req) (r_CommitHash res) (snd (keydb_run L ops s1))
             = Inr (c, w_Content req) \<and> c_Hash c = r_CommitHash res)
    \<and> (\<forall>s r h e. keydb_GetCommit r h s = Inl e \<longrightarrow>
          k_commits s (commitKey r h) = None
          \<or> (k_contents s (contentKey r h) = None
              \<and> (\<forall>a p. k_archive s = Some a \<longrightarrow> archive_Fetch r h a \<noteq> Inr p)))"
proof -
  let ?repo = "w_Name req" and ?hash = "r_CommitHash res"
  let ?branch = "if w_Branch req = [] then defaultBranch else w_Branch req"
  let ?c = "written_commit L now req ?branch s0"
  from assms(2) obtain s0' where
    watch: "keydb_watch L now req ?branch s0 = Inr (res, s0')"
    and s1: "s1 = keydb_enforceRetention clk ?repo (keydb_getPolicy ?repo s0) s0'"
    by (rule keydb_PutBlobAndCommit_InrD)
  have clean0: "hashes_clean s0"
    by (rule keydb_reachable_clean [OF assms(1)])
  from keydb_watch_clean [OF watch clean0]
  have clean0': "hashes_clean s0'" and nocolon: "CHR '':'' \<notin> set ?hash"
    by simp_all
  note f = keydb_watch_fields [OF watch]
  have "keydb_GetCommit ?repo ?hash s0' = Inr (?c, w_Content req)"
    using f by (simp add: keydb_GetCommit_def)
  then have "holds_commit ?repo ?hash ?c (w_Content req) s0'"
    by (auto simp: holds_commit_def intro: exI [of _ False] simp: written_commit_def)
  then have holds1: "holds_commit ?repo ?hash ?c (w_Content req) s1"
    unfolding s1 by (rule enforceRetention_holds_same_repo)
  have clean1: "hashes_clean s1"
    unfolding s1 by (rule enforceRetention_clean [OF clean0'])
  from keydb_run_holds [OF holds1 clean1 nocolon, of L ops]
  have "holds_commit ?repo ?hash ?c (w_Content req) (snd (keydb_run L ops s1))"
    by simp
  then have part1: "\<exists>c. keydb_GetCommit ?repo ?hash (snd (keydb_run L ops s1))
      = Inr (c, w_Content req) \<and> c_Hash c = ?hash"
    using f by (auto simp: holds_commit_def)
  show ?thesis
    using part1 keydb_GetCommit_error by blast
qed

theorem keydb_GetCommit_returns_written_content_witness:
  "fst (keydb_PutBlobAndCommit example_lib 1 1 example_write example_store) = Inr example_result
   \<and> (\<exists>c. keydb_GetCommit ''analytics'' ''15''
          (snd (keydb_run example_lib
             [PutBlobAndCommit 3 3 (example_write\<lparr>w_Content := ''two''\<rparr>),
              GetCommit ''analytics'' ''15'']
             (snd (keydb_PutBlobAndCommit example_lib 1 1 example_write example_store))))
        = Inr (c, ''one'') \<and> c_Hash c = ''15'')"
proof -
  let ?X1 = "keydb_PutBlobAndCommit example_lib 1 1 example_write example_store"
  have "example_store = snd (keydb_run example_lib [SetPolicy 0 example_policy] (NewKeyDBStore example_opts))"
    by (simp add: example_store_def split: prod.splits)
  then have reach: "keydb_reachable example_lib example_store"
    unfolding keydb_reachable_def by blast
  have e1: "fst ?X1 = Inr example_result"
    by (simp add: keydb_write_defs example_defs example_result_def keydb_retention_defs)
  then have h1: "?X1 = (Inr example_result, snd ?X1)"
    by (metis prod.collapse)
  have n: "w_Name example_write = ''analytics''" "w_Content example_write = ''one''"
    "r_CommitHash example_result = ''15''"
    by (simp_all add: example_write_def example_result_def)
  from keydb_GetCommit_returns_written_content [OF reach h1,
      of "[PutBlobAndCommit 3 3 (example_write\<lparr>w_Content := ''two''\<rparr>), GetCommit ''analytics'' ''15'']"]
  have "\<exists>c. keydb_GetCommit ''analytics'' ''15''
          (snd (keydb_run example_lib
             [PutBlobAndCommit 3 3 (example_write\<lparr>w_Content := ''two''\<rparr>),
              GetCommit ''analytics'' ''15'']
             (snd ?X1)))
        = Inr (c, ''one'') \<and> c_Hash c = ''15''"
    unfolding n by (rule conjunct1)
  with e1 show ?thesis
    by (rule conjI)
qed

subsection \<open>C6: a policy, once set, is locked\<close>

lemmas memory_defs =
  memory_PutBlobAndCommit_def memory_applyRetentionLocked_def memory_toArchive_def
  memory_flushCommitLocked_def memory_getPolicyLocked_def memory_SetPolicy_def
  memory_GetBranch_def memory_GetPolicy_def NewMemoryStore_def zeroCommit_def

lemmas session_defs =
  example_session_def example_request_def keydb_GetBranch_def
  example_policy_1500ms_def example_policy_1200ms_def

lemma keydb_SetPolicy_again:
  assumes "k_policies s (policyKey repo) = Some r" "rr_Locked r"
    and "p_Repo q = repo" "repo \<noteq> []" "0 \<le> p_HotCommitLimit q" "0 \<le> p_HotDuration q"
  shows "fst (keydb_SetPolicy clk q s) =
     (if p_HotCommitLimit q = rr_HotCommitLimit r \<and> p_HotDuration q div second = rr_HotDurationSeconds r
      then Inr (q\<lparr>p_Locked := True\<rparr>)
      else Inl (ConflictError ''policy'' repo))"
  using assms by (auto simp: keydb_SetPolicy_def Let_def)

lemma memory_SetPolicy_again:
  assumes "m_policies m repo = Some e" "p_Locked e"
    and "p_Repo q = repo" "repo \<noteq> []" "0 \<le> p_HotCommitLimit q" "0 \<le> p_HotDuration q"
  shows "fst (memory_SetPolicy clk q m) =
     (if p_HotCommitLimit q = p_HotCommitLimit e \<and> p_HotDuration q = p_HotDuration e
      then Inr (q\<lparr>p_Locked := True\<rparr>)
      else Inl (ConflictError ''policy'' repo))"
  using assms by (auto simp: memory_SetPolicy_def Let_def)

text \<open>
  Claim C6 does not hold for the KeyDB backend. It stores a policy's duration in whole
  seconds and compares a new policy with the stored limit and the stored number of
  seconds (lemma \<open>keydb_SetPolicy_again\<close>), so after a policy of 1.5 s a policy of 1.2 s
  with the same limit is accepted: the call returns the new policy, marked locked, while
  \<^verbatim>\<open>GetPolicy\<close> reports 1 s from then on. The in-memory backend compares the durations
  themselves (lemma \<open>memory_SetPolicy_again\<close>) and answers the same two calls with
  Conflict, as the claim says.
\<close>

theorem keydb_SetPolicy_ignores_fractions_of_a_second:
  "fst (keydb_run example_lib
      [SetPolicy 0 example_policy_1500ms, SetPolicy 0 example_policy_1200ms, GetPolicy ''analytics'']
      (NewKeyDBStore example_opts))
   = [PolicyResult (Inr (example_policy_1500ms\<lparr>p_Locked := True\<rparr>)),
      PolicyResult (Inr (example_policy_1200ms\<lparr>p_Locked := True\<rparr>)),
      PolicyResult (Inr \<lparr>p_Repo = ''analytics'', p_HotCommitLimit = 1,
        p_HotDuration = 1000000000, p_Locked = True\<rparr>)]
   \<and> fst (memory_run example_lib
      [SetPolicy 0 example_policy_1500ms, SetPolicy 0 example_policy_1200ms, GetPolicy ''analytics'']
      (NewMemoryStore example_opts))
   = [PolicyResult (Inr (example_policy_1500ms\<lparr>p_Locked := True\<rparr>)),
      PolicyResult (Inl (ConflictError ''policy'' ''analytics'')),
      PolicyResult (Inr (example_policy_1500ms\<lparr>p_Locked := True\<rparr>))]"
  by (simp add: session_defs memory_defs keydb_write_defs keydb_retention_defs example_defs)


theorem keydb_SetPolicy_ignores_fractions_of_a_second_witness:
  "fst (keydb_run example_lib
      [SetPolicy 0 example_policy_1500ms, SetPolicy 0 example_policy_1200ms, GetPolicy ''analytics'']
      (NewKeyDBStore example_opts))
   \<noteq> fst (memory_run example_lib
      [SetPolicy 0 example_policy_1500ms, SetPolicy 0 example_policy_1200ms, GetPolicy ''analytics'']
      (NewMemoryStore example_opts))"
  using keydb_SetPolicy_ignores_fractions_of_a_second by simp

subsection \<open>C2: the two backends side by side\<close>

text \<open>
  Claim C2 does not hold: the two backends answer some sequences of calls differently.
  \<^verbatim>\<open>GetBranch\<close> with an empty repository name is a validation error in the KeyDB backend
  and NotFound in the in-memory one, which has no such check (\<^verbatim>\<open>GetTag\<close> likewise). And in
  the session \<open>example_session\<close> the fourth call fails in both backends because the
  parent's content was archived, but the in-memory backend has by then bound the new
  author id to the name it came with, so it rejects the fifth call with Conflict while
  the KeyDB backend, which binds an author only in the transaction of a successful write,
  accepts it.
\<close>

theorem backends_differ:
  "fst (keydb_run example_lib [GetBranch [] ''main''] (NewKeyDBStore example_opts))
     = [BranchResult (Inl (ValidationError ''repo and name are required''))]
   \<and> fst (memory_run example_lib [GetBranch [] ''main''] (NewMemoryStore example_opts))
     = [BranchResult (Inl (NotFoundError ''branch'' ''main''))]
   \<and> fst (keydb_run example_lib example_session (NewKeyDBStore example_opts)) =
     [PolicyResult (Inr (example_policy\<lparr>p_Locked := True\<rparr>)),
      CommitResult (Inr \<lparr>r_CommitHash = ''15'', r_Branch = ''main'', r_CreatedAt = 1,
         r_Diff = ''--- previous+++ currentone''\<rparr>),
      CommitResult (Inr \<lparr>r_CommitHash = ''18'', r_Branch = ''dev'', r_CreatedAt = 2,
         r_Diff = ''--- previous+++ currentsecond''\<rparr>),
      CommitResult (Inl (NotFoundError ''content'' ''15'')),
      CommitResult (Inr \<lparr>r_CommitHash = ''1a'', r_Branch = ''dev'', r_CreatedAt = 4,
         r_Diff = ''--- previoussecond+++ currentfour''\<rparr>)]
   \<and> fst (memory_run example_lib example_session (NewMemoryStore example_opts)) =
     [PolicyResult (Inr (example_policy\<lparr>p_Locked := True\<rparr>)),
      CommitResult (Inr \<lparr>r_CommitHash = ''15'', r_Branch = ''main'', r_CreatedAt = 1,
         r_Diff = ''--- previous+++ currentone''\<rparr>),
      CommitResult (Inr \<lparr>r_CommitHash = ''18'', r_Branch = ''dev'', r_CreatedAt = 2,
         r_Diff = ''--- previous+++ currentsecond''\<rparr>),
      CommitResult (Inl (NotFoundError ''commit'' ''15'')),
      CommitResult (Inl (ConflictError ''author'' ''b1''))]"
  by (simp add: session_defs memory_defs keydb_write_defs keydb_retention_defs example_defs)

theorem backends_differ_witness:
  "map_sum class_of id
     (case hd (fst (keydb_run example_lib [GetBranch [] ''main''] (NewKeyDBStore example_opts))) of
        BranchResult r \<Rightarrow> r)
     = Inl Validation
   \<and> map_sum class_of id
     (case hd (fst (memory_run example_lib [GetBranch [] ''main''] (NewMemoryStore example_opts))) of
        BranchResult r \<Rightarrow> r)
     = Inl NotFound
   \<and> fst (keydb_run example_lib example_session (NewKeyDBStore example_opts))
     \<noteq> fst (memory_run example_lib example_session (NewMemoryStore example_opts))"
  using backends_differ by simp

end
